theory Spec2Isabelle
  imports Complex_Main
begin

section \<open>The detector of \<open>capture_improved.py\<close>\<close>

text \<open>
  A shallow embedding of the class \<open>NDIObjectDetector\<close> and of \<open>main\<close>.

  Conventions of the model:
  \<^item> Python floats (confidences, the threshold, \<open>time.time()\<close>) are reals. The comparisons
    of the source are exact on floats; the only arithmetic is the subtraction
    \<open>current_time - self.last_notification_time\<close>, which IEEE rounds monotonically, and the
    cooldown 5 is representable. NaN and the infinities are outside the model.
  \<^item> Strings are byte strings; \<open>lower\<close> and \<open>strip\<close> are modelled on ASCII.
  \<^item> What the environment gives (the boxes the network returns for a frame, the clock, the
    line typed at a prompt, whether a file can be written) is an argument of the function
    that asks for it.
  \<^item> What the program does to the outside (console lines, threads started, files written) is
    appended to the field \<open>trace\<close> of the detector, in program order. What the notification
    threads do is appended to the field \<open>background\<close>: they run concurrently, and the model
    says nothing on how the two interleave.
\<close>

subsection \<open>The string methods used by the source\<close>

definition ascii_uppercase :: string where
  "ascii_uppercase = ''ABCDEFGHIJKLMNOPQRSTUVWXYZ''"

definition ascii_lowercase :: string where
  "ascii_lowercase = ''abcdefghijklmnopqrstuvwxyz''"

definition lower_char :: "char \<Rightarrow> char" where
  "lower_char c =
     (case map_of (zip ascii_uppercase ascii_lowercase) c of None \<Rightarrow> c | Some d \<Rightarrow> d)"

text \<open>\<open>str.lower()\<close>\<close>
definition lower :: "string \<Rightarrow> string" where
  "lower s = map lower_char s"

text \<open>The ASCII characters for which \<open>str.isspace()\<close> holds: codes 9 to 13, 28 to 31, 32.\<close>
definition isspace :: "char \<Rightarrow> bool" where
  "isspace c = (let n = (of_char c :: nat) in (9 \<le> n \<and> n \<le> 13) \<or> (28 \<le> n \<and> n \<le> 32))"

text \<open>\<open>str.strip()\<close>\<close>
definition strip :: "string \<Rightarrow> string" where
  "strip s = rev (dropWhile isspace (rev (dropWhile isspace s)))"

text \<open>\<open>str.split(sep)\<close> for a separator of one character: never the empty list.\<close>
fun split :: "char \<Rightarrow> string \<Rightarrow> string list" where
  "split sep [] = [[]]"
| "split sep (c # cs) =
     (if c = sep then [] # split sep cs
      else (case split sep cs of [] \<Rightarrow> [[c]] | w # ws \<Rightarrow> (c # w) # ws))"

subsection \<open>Configuration\<close>

record config =
  model_path :: string
  confidence_threshold :: real
  target_classes :: "string list"
  video_source :: int
  ndi_sources :: "string list"
  display_size :: "int \<times> int"
  show_all_detections :: bool
  save_detections :: bool
  output_file :: string

definition default_config :: config where
  "default_config =
     \<lparr> model_path = ''yolov8n.pt'',
       confidence_threshold = 0.5,
       target_classes = [''person''],
       video_source = -1,
       ndi_sources = [],
       display_size = (1280, 720),
       show_all_detections = False,
       save_detections = False,
       output_file = ''detections.json'' \<rparr>"

text \<open>
  The JSON object of a configuration file: every key may be missing. What the file holds
  is not validated by the source; the types of the fields are an assumption of the model.
\<close>
record json_config =
  j_model_path :: "string option"
  j_confidence_threshold :: "real option"
  j_target_classes :: "string list option"
  j_video_source :: "int option"
  j_ndi_sources :: "string list option"
  j_display_size :: "(int \<times> int) option"
  j_show_all_detections :: "bool option"
  j_save_detections :: "bool option"
  j_output_file :: "string option"

datatype config_file = NoFile | Unreadable | Json json_config

datatype pyval = F real | S string | L "string list"

record detection =
  det_class :: string
  det_confidence :: real
  det_bbox :: "int \<times> int \<times> int \<times> int"
  det_timestamp :: real

text \<open>
  \<open>Print fmt vals\<close>: a console line, the format string and the values put into it.
  \<open>StartThread c\<close>: \<open>notification_thread.start()\<close> for the message of confidence \<open>c\<close>.
  \<open>MessageBox c\<close>: the popup shown by the thread. \<open>StampUpdated t\<close>: the assignment
  \<open>self.last_notification_time = t\<close>. \<open>WriteConfig\<close>, \<open>AppendDetections\<close>: file output.
\<close>
datatype event =
    Print string "pyval list"
  | StartThread real
  | MessageBox real
  | StampUpdated real
  | WriteConfig config
  | AppendDetections "detection list"

datatype py_error = KeyError

subsection \<open>Frames and boxes\<close>

datatype colour = Green | Blue

text \<open>
  \<open>Rectangle (x1, y1) (x2, y2) colour\<close> and \<open>PutText cls_name conf target (x, y) colour\<close>,
  the text being \<open>f"{cls_name} {conf:.2f}"\<close>, followed by \<open>" [TARGET]"\<close> when \<open>target\<close>.
\<close>
datatype draw =
    Rectangle "int \<times> int" "int \<times> int" colour
  | PutText string real bool "int \<times> int" colour

text \<open>A frame: the captured image (opaque) and what has been drawn on it, in order.\<close>
record frame =
  image :: nat
  drawn :: "draw list"

text \<open>One element of \<open>results.boxes\<close>.\<close>
record box =
  box_cls :: int
  box_conf :: real
  box_xyxy :: "int \<times> int \<times> int \<times> int"

text \<open>
  What the environment gives while one box is processed: the two readings of
  \<open>time.time()\<close> (lines 171 and 180) and whether the popup can be created in the thread.
\<close>
record env =
  clock_stamp :: real
  clock_now :: real
  popup_ok :: bool

subsection \<open>The detector object\<close>

record detector =
  config_file :: string
  model :: "string option"
  class_names :: "int \<rightharpoonup> string"
  config :: config
  total_detections :: int
  target_detections :: int
  paused :: bool
  show_help :: bool
  last_notification_time :: real
  notification_cooldown :: real
  trace :: "event list"
  background :: "event list"

definition emit :: "event list \<Rightarrow> detector \<Rightarrow> detector" where
  "emit es st = st\<lparr>trace := trace st @ es\<rparr>"

text \<open>\<open>save_config\<close>: the events of writing \<open>c\<close>; \<open>ok\<close> says whether the file can be written.\<close>
definition save_config :: "config \<Rightarrow> bool \<Rightarrow> event list" where
  "save_config c ok = (if ok then [WriteConfig c] else [Print ''Error saving config: {}'' []])"

text \<open>\<open>load_config\<close>: the configuration and the events (a missing file is created).\<close>
definition load_config :: "config_file \<Rightarrow> bool \<Rightarrow> config \<times> event list" where
  "load_config file ok =
     (case file of
        Json j \<Rightarrow>
          (\<lparr> model_path = (case j_model_path j of None \<Rightarrow> model_path default_config | Some v \<Rightarrow> v),
             confidence_threshold =
               (case j_confidence_threshold j of
                  None \<Rightarrow> confidence_threshold default_config | Some v \<Rightarrow> v),
             target_classes =
               (case j_target_classes j of None \<Rightarrow> target_classes default_config | Some v \<Rightarrow> v),
             video_source =
               (case j_video_source j of None \<Rightarrow> video_source default_config | Some v \<Rightarrow> v),
             ndi_sources =
               (case j_ndi_sources j of None \<Rightarrow> ndi_sources default_config | Some v \<Rightarrow> v),
             display_size =
               (case j_display_size j of None \<Rightarrow> display_size default_config | Some v \<Rightarrow> v),
             show_all_detections =
               (case j_show_all_detections j of
                  None \<Rightarrow> show_all_detections default_config | Some v \<Rightarrow> v),
             save_detections =
               (case j_save_detections j of None \<Rightarrow> save_detections default_config | Some v \<Rightarrow> v),
             output_file =
               (case j_output_file j of None \<Rightarrow> output_file default_config | Some v \<Rightarrow> v) \<rparr>,
           [])
      | Unreadable \<Rightarrow> (default_config, [Print ''Error loading config: {}. Using defaults.'' []])
      | NoFile \<Rightarrow> (default_config, save_config default_config ok))"

text \<open>\<open>__init__\<close>\<close>
definition init :: "string \<Rightarrow> config_file \<Rightarrow> bool \<Rightarrow> detector" where
  "init name file ok =
     (case load_config file ok of (c, es) \<Rightarrow>
        \<lparr> config_file = name,
          model = None,
          class_names = Map.empty,
          config = c,
          total_detections = 0,
          target_detections = 0,
          paused = False,
          show_help = True,
          last_notification_time = 0,
          notification_cooldown = 5,
          trace = es,
          background = [] \<rparr>)"

text \<open>
  \<open>load_model\<close>; \<open>names\<close> is \<open>YOLO(model_path).names\<close>, or \<open>None\<close> when the model cannot be
  loaded.
\<close>
definition load_model :: "string \<Rightarrow> (int \<rightharpoonup> string) option \<Rightarrow> detector \<Rightarrow> bool \<times> detector" where
  "load_model path names st =
     (case names of
        Some ns \<Rightarrow>
          (True, emit [Print ''Model loaded: {}'' [S path], Print ''Available classes: {}'' []]
                   (st\<lparr>model := Some path, class_names := ns\<rparr>))
      | None \<Rightarrow> (False, emit [Print ''Error loading model: {}'' []] st))"

subsection \<open>Processing one frame\<close>

text \<open>Line 176 of \<open>process_frame\<close>: \<open>cls_name in [tc.lower() for tc in target_classes]\<close>.\<close>
definition is_target_class :: "config \<Rightarrow> string \<Rightarrow> bool" where
  "is_target_class c cls_name = (cls_name \<in> set (map lower (target_classes c)))"

text \<open>The body of the thread started by \<open>show_notification\<close>; it has no access to the detector.\<close>
definition show_message :: "real \<Rightarrow> bool \<Rightarrow> event list" where
  "show_message info ok =
     (if ok then [MessageBox info] else [Print ''Error showing notification: {}'' []])"

text \<open>
  \<open>show_notification\<close>: starts the thread, which runs in the background. A failure to
  start the thread is outside the model.
\<close>
definition show_notification :: "real \<Rightarrow> bool \<Rightarrow> detector \<Rightarrow> detector" where
  "show_notification info ok st =
     (emit [StartThread info] st)\<lparr>background := background st @ show_message info ok\<rparr>"

text \<open>Lines 179 to 183: the notification for a person, with the cooldown.\<close>
definition notify_person :: "string \<Rightarrow> bool \<Rightarrow> real \<Rightarrow> env \<Rightarrow> detector \<Rightarrow> detector" where
  "notify_person cls_name is_target conf e st =
     (if cls_name = ''person'' \<and> is_target then
        (let current_time = clock_now e in
         if notification_cooldown st \<le> current_time - last_notification_time st then
           (let st1 = show_notification conf (popup_ok e) st
            in emit [StampUpdated current_time] (st1\<lparr>last_notification_time := current_time\<rparr>))
         else st)
      else st)"

text \<open>Lines 185 to 192: the rectangle and the label.\<close>
definition annotate ::
  "config \<Rightarrow> string \<Rightarrow> bool \<Rightarrow> real \<Rightarrow> int \<times> int \<times> int \<times> int \<Rightarrow> frame \<Rightarrow> frame" where
  "annotate c cls_name is_target conf bbox fr =
     (if is_target \<or> show_all_detections c then
        (case bbox of (x1, y1, x2, y2) \<Rightarrow>
           (let color = (if is_target then Green else Blue)
            in fr\<lparr>drawn := drawn fr @
                 [Rectangle (x1, y1) (x2, y2) color,
                  PutText cls_name conf is_target (x1, y1 - 10) color]\<rparr>))
      else fr)"

text \<open>
  The body of the loop over \<open>results.boxes\<close> (lines 159 to 192). The lookup
  \<open>self.class_names[cls_id]\<close> raises \<open>KeyError\<close> for an unknown class id, before the
  confidence is looked at.
\<close>
definition process_box ::
  "detector \<Rightarrow> frame \<Rightarrow> detection list \<Rightarrow> box \<times> env \<Rightarrow>
     py_error + (frame \<times> detection list \<times> detector)" where
  "process_box st fr detections be =
     (case be of (b, e) \<Rightarrow>
        (case class_names st (box_cls b) of
           None \<Rightarrow> Inl KeyError
         | Some name \<Rightarrow>
             (let cls_name = lower name; conf = box_conf b in
              if confidence_threshold (config st) \<le> conf then
                (let detection =
                       \<lparr> det_class = cls_name, det_confidence = conf,
                         det_bbox = box_xyxy b, det_timestamp = clock_stamp e \<rparr>;
                     is_target = is_target_class (config st) cls_name;
                     st1 = notify_person cls_name is_target conf e st;
                     fr1 = annotate (config st1) cls_name is_target conf (box_xyxy b) fr
                 in Inr (fr1, detections @ [detection], st1))
              else Inr (fr, detections, st))))"

fun process_boxes ::
  "detector \<Rightarrow> frame \<Rightarrow> detection list \<Rightarrow> (box \<times> env) list \<Rightarrow>
     py_error + (frame \<times> detection list \<times> detector)" where
  "process_boxes st fr detections [] = Inr (fr, detections, st)"
| "process_boxes st fr detections (be # bes) =
     (case process_box st fr detections be of
        Inl err \<Rightarrow> Inl err
      | Inr (fr1, detections1, st1) \<Rightarrow> process_boxes st1 fr1 detections1 bes)"

text \<open>
  \<open>process_frame\<close>; \<open>bes\<close> is what \<open>self.model(frame)[0].boxes\<close> gives for this frame,
  each box with the environment met while it is processed.
\<close>
definition process_frame ::
  "detector \<Rightarrow> frame \<Rightarrow> (box \<times> env) list \<Rightarrow>
     py_error + (frame \<times> detection list \<times> detector)" where
  "process_frame st fr bes =
     (if model st = None then Inr (fr, [], st) else process_boxes st fr [] bes)"

subsection \<open>Keyboard and prompts\<close>

text \<open>\<open>input()\<close>: the line typed, or \<open>EOFError\<close>, or \<open>KeyboardInterrupt\<close>.\<close>
datatype prompt = Line string | Eof | Interrupt

text \<open>
  \<open>change_confidence\<close>. \<open>pyfloat\<close> is the builtin \<open>float\<close> on strings, \<open>None\<close> for
  \<open>ValueError\<close>.
\<close>
definition change_confidence ::
  "(string \<Rightarrow> real option) \<Rightarrow> prompt \<Rightarrow> detector \<Rightarrow> detector" where
  "change_confidence pyfloat inp st =
     (let st0 = emit
            [Print ''Current confidence threshold: {}'' [F (confidence_threshold (config st))],
             Print ''Enter new confidence threshold (0.0-1.0) or press Enter to keep current:'' [],
             Print ''(Type in the console window, not the video window)'' [],
             Print ''Confidence (0.0-1.0): '' []] st;
          st1 =
            (case inp of
               Line typed \<Rightarrow>
                 (let new_conf_input = strip typed in
                  if new_conf_input \<noteq> [] then
                    (case pyfloat new_conf_input of
                       None \<Rightarrow>
                         emit [Print ''Invalid input, keeping current confidence threshold'' []] st0
                     | Some new_conf \<Rightarrow>
                         if 0 \<le> new_conf \<and> new_conf \<le> 1 then
                           emit [Print ''Confidence threshold set to {}'' [F new_conf]]
                             (st0\<lparr>config := (config st0)\<lparr>confidence_threshold := new_conf\<rparr>\<rparr>)
                         else emit [Print ''Confidence must be between 0.0 and 1.0'' []] st0)
                  else emit [Print ''Keeping current confidence threshold'' []] st0)
             | Eof \<Rightarrow>
                 emit [Print ''Input cancelled, keeping current confidence threshold'' []] st0
             | Interrupt \<Rightarrow>
                 emit [Print ''Input cancelled, keeping current confidence threshold'' []] st0)
      in emit [Print ''Settings updated! Video continues...'' []] st1)"

text \<open>\<open>change_target\<close>\<close>
definition change_target :: "prompt \<Rightarrow> detector \<Rightarrow> detector" where
  "change_target inp st =
     (let st0 = emit
            [Print ''Current targets: {}'' [L (target_classes (config st))],
             Print ''Available classes: {} ...'' [],
             Print ''Enter new target classes (comma-separated) or press Enter to keep current:'' [],
             Print ''(Type in the console window, not the video window)'' [],
             Print ''Target classes: '' []] st;
          st1 =
            (case inp of
               Line typed \<Rightarrow>
                 (let new_targets = strip typed in
                  if new_targets \<noteq> [] then
                    (let tcs = map (\<lambda>t. lower (strip t)) (split CHR '','' new_targets)
                     in emit [Print ''Target classes set to: {}'' [L tcs]]
                          (st0\<lparr>config := (config st0)\<lparr>target_classes := tcs\<rparr>\<rparr>))
                  else emit [Print ''Keeping current targets'' []] st0)
             | Eof \<Rightarrow> emit [Print ''Input cancelled, keeping current targets'' []] st0
             | Interrupt \<Rightarrow> emit [Print ''Input cancelled, keeping current targets'' []] st0)
      in emit [Print ''Settings updated! Video continues...'' []] st1)"

text \<open>
  \<open>handle_keyboard_input\<close>: whether the loop goes on, and the detector. The codes are
  \<open>ord('q')\<close> = 113, \<open>ord(' ')\<close> = 32, \<open>ord('h')\<close> = 104, \<open>ord('c')\<close> = 99, \<open>ord('t')\<close> = 116,
  \<open>ord('s')\<close> = 115.
\<close>
definition handle_keyboard_input ::
  "(string \<Rightarrow> real option) \<Rightarrow> detector \<Rightarrow> nat \<Rightarrow> prompt \<Rightarrow> bool \<Rightarrow> bool \<times> detector" where
  "handle_keyboard_input pyfloat st key inp write_ok =
     (if key = 113 then (False, st)
      else if key = 32 then
        (let st1 = st\<lparr>paused := \<not> paused st\<rparr>
         in (True, emit [Print (if paused st1 then ''Paused'' else ''Resumed'') []] st1))
      else if key = 104 then (True, st\<lparr>show_help := \<not> show_help st\<rparr>)
      else if key = 99 then (True, change_confidence pyfloat inp st)
      else if key = 116 then (True, change_target inp st)
      else if key = 115 then
        (True, emit (save_config (config st) write_ok @ [Print ''Configuration saved!'' []]) st)
      else (True, st))"

subsection \<open>The main loop\<close>

text \<open>\<open>save_detections\<close>; \<open>ok\<close> says whether the output file can be appended to.\<close>
definition save_detections_to_file :: "detection list \<Rightarrow> bool \<Rightarrow> detector \<Rightarrow> detector" where
  "save_detections_to_file detections ok st =
     (if save_detections (config st) \<and> detections \<noteq> [] then
        emit (if ok then [AppendDetections detections]
              else [Print ''Error saving detections: {}'' []]) st
      else st)"

text \<open>Line 373 of \<open>run\<close>: \<open>d["class"] in [tc.lower() for tc in target_classes]\<close>.\<close>
definition counts_as_target :: "config \<Rightarrow> detection \<Rightarrow> bool" where
  "counts_as_target c d = (det_class d \<in> set (map lower (target_classes c)))"

text \<open>What one iteration of the loop of \<open>run\<close> gets from the outside.\<close>
record tick_input =
  read_ret :: bool
  read_frame :: frame
  boxes :: "(box \<times> env) list"
  append_ok :: bool
  key :: nat
  typed :: prompt
  write_ok :: bool

datatype outcome = Continue detector | Break detector | Raise py_error

text \<open>
  Lines 385 to 394: overlay, display, keyboard. The overlay and the display read the
  detector and draw on the frame, which is dropped after the iteration; they are left out.
\<close>
definition after_frame ::
  "(string \<Rightarrow> real option) \<Rightarrow> detector \<Rightarrow> tick_input \<Rightarrow> outcome" where
  "after_frame pyfloat st i =
     (case handle_keyboard_input pyfloat st (key i) (typed i) (write_ok i) of
        (continue, st1) \<Rightarrow> if continue then Continue st1 else Break st1)"

text \<open>One iteration of \<open>while True\<close> in \<open>run\<close> (lines 362 to 394).\<close>
definition tick :: "(string \<Rightarrow> real option) \<Rightarrow> detector \<Rightarrow> tick_input \<Rightarrow> outcome" where
  "tick pyfloat st i =
     (if \<not> paused st then
        (if \<not> read_ret i then Break (emit [Print ''Failed to read frame'' []] st)
         else
           (case process_frame st (read_frame i) (boxes i) of
              Inl err \<Rightarrow> Raise err
            | Inr (processed_frame, detections, st1) \<Rightarrow>
                (let st2 = st1\<lparr>total_detections :=
                             total_detections st1 + int (length detections)\<rparr>;
                     targets = filter (counts_as_target (config st2)) detections;
                     st3 = st2\<lparr>target_detections :=
                             target_detections st2 + int (length targets)\<rparr>;
                     st4 = save_detections_to_file detections (append_ok i) st3
                 in after_frame pyfloat st4 i)))
      else (if \<not> read_ret i then Break st else after_frame pyfloat st i))"

text \<open>
  The loop of \<open>run\<close> on the inputs of its first iterations: the detector after each
  iteration that was executed. The loop ends at a \<open>Break\<close> and at an exception.
\<close>
fun run_loop :: "(string \<Rightarrow> real option) \<Rightarrow> detector \<Rightarrow> tick_input list \<Rightarrow> detector list" where
  "run_loop pyfloat st [] = []"
| "run_loop pyfloat st (i # is) =
     (case tick pyfloat st i of
        Continue st1 \<Rightarrow> st1 # run_loop pyfloat st1 is
      | Break st1 \<Rightarrow> [st1]
      | Raise err \<Rightarrow> [])"

subsection \<open>The command line\<close>

record args =
  arg_config :: string
  arg_model :: "string option"
  arg_source :: "int option"
  arg_confidence :: "real option"
  arg_targets :: "string option"

text \<open>\<open>main\<close>, up to the call of \<open>detector.run()\<close>.\<close>
definition main :: "args \<Rightarrow> config_file \<Rightarrow> bool \<Rightarrow> detector" where
  "main a file ok =
     (let d0 = init (arg_config a) file ok;
          d1 = (case arg_model a of
                  None \<Rightarrow> d0
                | Some m \<Rightarrow> if m \<noteq> [] then d0\<lparr>config := (config d0)\<lparr>model_path := m\<rparr>\<rparr> else d0);
          d2 = (case arg_source a of
                  None \<Rightarrow> d1
                | Some s \<Rightarrow> d1\<lparr>config := (config d1)\<lparr>video_source := s\<rparr>\<rparr>);
          d3 = (case arg_confidence a of
                  None \<Rightarrow> d2
                | Some c \<Rightarrow> d2\<lparr>config := (config d2)\<lparr>confidence_threshold := c\<rparr>\<rparr>);
          d4 = (case arg_targets a of
                  None \<Rightarrow> d3
                | Some ts \<Rightarrow>
                    if ts \<noteq> [] then
                      d3\<lparr>config := (config d3)\<lparr>target_classes :=
                            map (\<lambda>t. lower (strip t)) (split CHR '','' ts)\<rparr>\<rparr>
                    else d3)
      in d4)"

subsection \<open>Reading the outputs\<close>

text \<open>The confidences of the alerts dispatched, in order.\<close>
fun alerts :: "event list \<Rightarrow> real list" where
  "alerts [] = []"
| "alerts (StartThread c # es) = c # alerts es"
| "alerts (e # es) = alerts es"

text \<open>The times written to \<open>last_notification_time\<close>, in order.\<close>
fun stamps :: "event list \<Rightarrow> real list" where
  "stamps [] = []"
| "stamps (StampUpdated t # es) = t # stamps es"
| "stamps (e # es) = stamps es"

text \<open>The labels drawn with the \<open>[TARGET]\<close> mark: class name and confidence, in order.\<close>
fun target_marks :: "draw list \<Rightarrow> (string \<times> real) list" where
  "target_marks [] = []"
| "target_marks (PutText n c True p k # ds) = (n, c) # target_marks ds"
| "target_marks (d # ds) = target_marks ds"

text \<open>The trace after a step; empty when the step raised.\<close>
definition final_trace :: "py_error + (frame \<times> detection list \<times> detector) \<Rightarrow> event list" where
  "final_trace r = (case r of Inl err \<Rightarrow> [] | Inr (fr, ds, st) \<Rightarrow> trace st)"

text \<open>
  A box that passes the threshold, whose label is \<open>person\<close> in lower case and is a target:
  the condition under which line 180 is reached.
\<close>
definition qualifying :: "detector \<Rightarrow> box \<Rightarrow> bool" where
  "qualifying st b =
     (case class_names st (box_cls b) of
        None \<Rightarrow> False
      | Some name \<Rightarrow>
          confidence_threshold (config st) \<le> box_conf b \<and>
          lower name = ''person'' \<and> is_target_class (config st) (lower name))"

subsection \<open>A session used in the examples\<close>

definition coco :: "int \<rightharpoonup> string" where
  "coco = [0 \<mapsto> ''person'', 16 \<mapsto> ''dog'']"

text \<open>A fresh detector with a model loaded: no configuration file, default configuration.\<close>
definition session :: detector where
  "session = snd (load_model ''yolov8n.pt'' (Some coco) (init ''detector_config.json'' NoFile True))"

definition blank :: frame where
  "blank = \<lparr> image = 0, drawn = [] \<rparr>"

definition a_box :: "int \<Rightarrow> real \<Rightarrow> box" where
  "a_box c p = \<lparr> box_cls = c, box_conf = p, box_xyxy = (10, 20, 110, 220) \<rparr>"

definition at_time :: "real \<Rightarrow> env" where
  "at_time t = \<lparr> clock_stamp = t, clock_now = t, popup_ok = True \<rparr>"

text \<open>An iteration that reads a frame with the boxes \<open>bes\<close>, with key code \<open>k\<close>.\<close>
definition a_tick :: "(box \<times> env) list \<Rightarrow> nat \<Rightarrow> tick_input" where
  "a_tick bes k =
     \<lparr> read_ret = True, read_frame = blank, boxes = bes, append_ok = True, key = k,
       typed = Eof, write_ok = True \<rparr>"

text \<open>A stand-in for the builtin \<open>float\<close> that knows the text \<open>1.5\<close> only.\<close>
definition one_and_a_half :: "string \<Rightarrow> real option" where
  "one_and_a_half s = (if s = ''1.5'' then Some 1.5 else None)"

section \<open>Properties\<close>

subsection \<open>Strings\<close>

lemma lower_person: "lower ''person'' = ''person''"
  by (simp add: lower_def lower_char_def ascii_uppercase_def ascii_lowercase_def)

lemma lower_dog: "lower ''dog'' = ''dog''" "lower ''Dog'' = ''dog''" "lower ''DOG'' = ''dog''"
  by (simp_all add: lower_def lower_char_def ascii_uppercase_def ascii_lowercase_def)

lemma lower_cat: "lower ''Cat'' = ''cat''"
  by (simp add: lower_def lower_char_def ascii_uppercase_def ascii_lowercase_def)

subsection \<open>What the steps leave alone\<close>

lemma emit_fields [simp]:
  "trace (emit es st) = trace st @ es"
  "config (emit es st) = config st"
  "class_names (emit es st) = class_names st"
  "model (emit es st) = model st"
  "total_detections (emit es st) = total_detections st"
  "target_detections (emit es st) = target_detections st"
  "last_notification_time (emit es st) = last_notification_time st"
  "notification_cooldown (emit es st) = notification_cooldown st"
  "background (emit es st) = background st"
  "paused (emit es st) = paused st"
  "show_help (emit es st) = show_help st"
  by (simp_all add: emit_def)

lemma notify_person_fields [simp]:
  "config (notify_person n t c e st) = config st"
  "class_names (notify_person n t c e st) = class_names st"
  "model (notify_person n t c e st) = model st"
  "total_detections (notify_person n t c e st) = total_detections st"
  "target_detections (notify_person n t c e st) = target_detections st"
  "notification_cooldown (notify_person n t c e st) = notification_cooldown st"
  by (simp_all add: notify_person_def show_notification_def Let_def)

lemma process_box_Inr:
  assumes "process_box st fr ds (b, e) = Inr (fr', ds', st')"
  shows "\<exists>name. class_names st (box_cls b) = Some name \<and>
           (if confidence_threshold (config st) \<le> box_conf b then
              ds' = ds @ [\<lparr> det_class = lower name, det_confidence = box_conf b,
                            det_bbox = box_xyxy b, det_timestamp = clock_stamp e \<rparr>] \<and>
              st' = notify_person (lower name) (is_target_class (config st) (lower name))
                      (box_conf b) e st \<and>
              fr' = annotate (config st) (lower name) (is_target_class (config st) (lower name))
                      (box_conf b) (box_xyxy b) fr
            else ds' = ds \<and> st' = st \<and> fr' = fr)"
  using assms by (auto simp: process_box_def Let_def split: option.splits if_splits)

lemma process_box_total:
  assumes "class_names st (box_cls (fst be)) \<noteq> None"
  shows "\<exists>r. process_box st fr ds be = Inr r"
  using assms by (cases be) (auto simp: process_box_def Let_def split: option.splits)

lemma process_box_keeps:
  assumes "process_box st fr ds be = Inr (fr', ds', st')"
  shows "config st' = config st \<and> class_names st' = class_names st \<and> model st' = model st \<and>
         total_detections st' = total_detections st \<and>
         target_detections st' = target_detections st \<and>
         notification_cooldown st' = notification_cooldown st"
proof (cases be)
  case (Pair b e)
  with assms process_box_Inr [of st fr ds b e fr' ds' st'] show ?thesis
    by (auto split: if_splits)
qed

lemma process_boxes_keeps:
  "process_boxes st fr ds bes = Inr (fr', ds', st') \<Longrightarrow>
   config st' = config st \<and> class_names st' = class_names st \<and> model st' = model st \<and>
   total_detections st' = total_detections st \<and>
   target_detections st' = target_detections st \<and>
   notification_cooldown st' = notification_cooldown st"
proof (induction bes arbitrary: st fr ds)
  case Nil
  then show ?case by simp
next
  case (Cons be bes)
  then obtain fr1 ds1 st1 where
    s: "process_box st fr ds be = Inr (fr1, ds1, st1)" and
    r: "process_boxes st1 fr1 ds1 bes = Inr (fr', ds', st')"
    by (auto split: sum.splits)
  from Cons.IH [OF r] process_box_keeps [OF s] show ?case by simp
qed

lemma process_boxes_total:
  "\<forall>be\<in>set bes. class_names st (box_cls (fst be)) \<noteq> None \<Longrightarrow>
   \<exists>r. process_boxes st fr ds bes = Inr r"
proof (induction bes arbitrary: st fr ds)
  case Nil
  then show ?case by simp
next
  case (Cons be bes)
  then obtain fr1 ds1 st1 where s: "process_box st fr ds be = Inr (fr1, ds1, st1)"
    using process_box_total [of st be fr ds] by auto
  have "class_names st1 = class_names st" using process_box_keeps [OF s] by simp
  with Cons.prems have "\<forall>be\<in>set bes. class_names st1 (box_cls (fst be)) \<noteq> None" by simp
  from Cons.IH [OF this, of fr1 ds1] s show ?case by simp
qed

lemma process_boxes_detections:
  "process_boxes st fr ds bes = Inr (fr', ds', st') \<Longrightarrow>
   ds' = ds @ map (\<lambda>(b, e). \<lparr> det_class = lower (the (class_names st (box_cls b))),
                             det_confidence = box_conf b, det_bbox = box_xyxy b,
                             det_timestamp = clock_stamp e \<rparr>)
               (filter (\<lambda>(b, e). confidence_threshold (config st) \<le> box_conf b) bes)"
proof (induction bes arbitrary: st fr ds)
  case Nil
  then show ?case by simp
next
  case (Cons be bes)
  obtain b e where be: "be = (b, e)" by (cases be)
  from Cons.prems obtain fr1 ds1 st1 where
    s: "process_box st fr ds (b, e) = Inr (fr1, ds1, st1)" and
    r: "process_boxes st1 fr1 ds1 bes = Inr (fr', ds', st')"
    by (auto simp: be split: sum.splits)
  have k: "config st1 = config st" "class_names st1 = class_names st"
    using process_box_keeps [OF s] by simp_all
  from process_box_Inr [OF s] Cons.IH [OF r] show ?case
    by (auto simp: be k split: if_splits)
qed


subsection \<open>The notifier within a frame\<close>

lemma session_fields:
  "config session = default_config"
  "class_names session = coco"
  "model session = Some ''yolov8n.pt''"
  "total_detections session = 0"
  "target_detections session = 0"
  "paused session = False"
  "last_notification_time session = 0"
  "notification_cooldown session = 5"
  "background session = []"
  by (simp_all add: session_def load_model_def init_def load_config_def save_config_def)

lemma stamps_append: "stamps (xs @ ys) = stamps xs @ stamps ys"
  by (induction xs rule: stamps.induct) simp_all

lemma alerts_append: "alerts (xs @ ys) = alerts xs @ alerts ys"
  by (induction xs rule: alerts.induct) simp_all

lemma show_message_silent: "stamps (show_message c ok) = []" "alerts (show_message c ok) = []"
  by (simp_all add: show_message_def)

lemma notify_person_fire:
  assumes "n = ''person''" and "t"
    and "notification_cooldown st \<le> clock_now e - last_notification_time st"
  shows "notify_person n t c e st =
           st\<lparr>last_notification_time := clock_now e,
              trace := trace st @ [StartThread c, StampUpdated (clock_now e)],
              background := background st @ show_message c (popup_ok e)\<rparr>"
  using assms by (simp add: notify_person_def show_notification_def emit_def Let_def)

lemma notify_person_skip:
  assumes "\<not> (n = ''person'' \<and> t \<and>
             notification_cooldown st \<le> clock_now e - last_notification_time st)"
  shows "notify_person n t c e st = st"
  using assms by (auto simp: notify_person_def Let_def)

lemma qualifying_step:
  assumes "qualifying st b"
  shows "process_box st fr ds (b, e) =
           Inr (annotate (config st) ''person'' True (box_conf b) (box_xyxy b) fr,
                ds @ [\<lparr> det_class = ''person'', det_confidence = box_conf b,
                          det_bbox = box_xyxy b, det_timestamp = clock_stamp e \<rparr>],
                notify_person ''person'' True (box_conf b) e st)"
  using assms by (auto simp: qualifying_def process_box_def Let_def split: option.splits)

lemma qualifying_kept:
  assumes "config st' = config st" and "class_names st' = class_names st"
  shows "qualifying st' b = qualifying st b"
  using assms by (simp add: qualifying_def split: option.splits)

lemma notify_person_spaced:
  assumes "0 \<le> notification_cooldown st"
  shows "\<exists>ts. stamps (trace (notify_person n t c e st)) = stamps (trace st) @ ts \<and>
              length (alerts (trace (notify_person n t c e st))) =
                length (alerts (trace st)) + length ts \<and>
              sorted_wrt (\<lambda>x y. notification_cooldown st \<le> y - x)
                (last_notification_time st # ts) \<and>
              last_notification_time (notify_person n t c e st) =
                last (last_notification_time st # ts)"
proof (cases "n = ''person'' \<and> t \<and>
              notification_cooldown st \<le> clock_now e - last_notification_time st")
  case True
  then have "notify_person n t c e st =
           st\<lparr>last_notification_time := clock_now e,
              trace := trace st @ [StartThread c, StampUpdated (clock_now e)],
              background := background st @ show_message c (popup_ok e)\<rparr>"
    by (simp add: notify_person_fire)
  with True show ?thesis
    by (intro exI [of _ "[clock_now e]"])
       (simp add: stamps_append alerts_append show_message_silent)
next
  case False
  then have "notify_person n t c e st = st" by (rule notify_person_skip)
  then show ?thesis by (intro exI [of _ "[]"]) simp
qed

lemma sorted_wrt_chain:
  fixes c :: real
  assumes "0 \<le> c"
    and "sorted_wrt (\<lambda>x y. c \<le> y - x) (l # ts1)"
    and "sorted_wrt (\<lambda>x y. c \<le> y - x) (last (l # ts1) # ts2)"
  shows "sorted_wrt (\<lambda>x y. c \<le> y - x) (l # ts1 @ ts2)"
proof -
  have up: "\<forall>x\<in>set (l # ts1). x \<le> last (l # ts1)"
    using assms(1,2)
  proof (induction ts1 arbitrary: l)
    case Nil
    then show ?case by simp
  next
    case (Cons a ts1)
    then have "\<forall>x\<in>set (a # ts1). x \<le> last (a # ts1)" by simp
    moreover from Cons.prems have "l \<le> a" by auto
    ultimately show ?case by (cases ts1) auto
  qed
  have far: "\<forall>x\<in>set (l # ts1). \<forall>y\<in>set ts2. c \<le> y - x"
  proof (intro ballI)
    fix x y assume x: "x \<in> set (l # ts1)" and y: "y \<in> set ts2"
    from up x have "x \<le> last (l # ts1)" by blast
    moreover from assms(3) y have "c \<le> y - last (l # ts1)" by simp
    ultimately show "c \<le> y - x" by linarith
  qed
  have "sorted_wrt (\<lambda>x y. c \<le> y - x) ((l # ts1) @ ts2)"
    unfolding sorted_wrt_append using assms(2,3) far by simp
  then show ?thesis by simp
qed

lemma process_boxes_spaced:
  "0 \<le> notification_cooldown st \<Longrightarrow>
   process_boxes st fr ds bes = Inr (fr', ds', st') \<Longrightarrow>
   \<exists>ts. stamps (trace st') = stamps (trace st) @ ts \<and>
        length (alerts (trace st')) = length (alerts (trace st)) + length ts \<and>
        sorted_wrt (\<lambda>x y. notification_cooldown st \<le> y - x)
          (last_notification_time st # ts) \<and>
        last_notification_time st' = last (last_notification_time st # ts)"
proof (induction bes arbitrary: st fr ds)
  case Nil
  then show ?case by (intro exI [of _ "[]"]) simp
next
  case (Cons be bes)
  obtain b e where be: "be = (b, e)" by (cases be)
  from Cons.prems obtain fr1 ds1 st1 where
    s: "process_box st fr ds (b, e) = Inr (fr1, ds1, st1)" and
    r: "process_boxes st1 fr1 ds1 bes = Inr (fr', ds', st')"
    by (auto simp: be split: sum.splits)
  let ?c = "notification_cooldown st"
  have c1: "notification_cooldown st1 = ?c" using process_box_keeps [OF s] by simp
  obtain ts1 where
    a1: "stamps (trace st1) = stamps (trace st) @ ts1"
    and a2: "length (alerts (trace st1)) = length (alerts (trace st)) + length ts1"
    and a3: "sorted_wrt (\<lambda>x y. ?c \<le> y - x) (last_notification_time st # ts1)"
    and a4: "last_notification_time st1 = last (last_notification_time st # ts1)"
  proof (cases "confidence_threshold (config st) \<le> box_conf b")
    case True
    with process_box_Inr [OF s] obtain name where
      "st1 = notify_person (lower name) (is_target_class (config st) (lower name))
               (box_conf b) e st" by auto
    with notify_person_spaced [OF Cons.prems(1)] that show ?thesis by blast
  next
    case False
    with process_box_Inr [OF s] have "st1 = st" by auto
    with that [of "[]"] show ?thesis by simp
  qed
  from Cons.prems(1) c1 have "0 \<le> notification_cooldown st1" by simp
  from Cons.IH [OF this r] obtain ts2 where
    b1: "stamps (trace st') = stamps (trace st1) @ ts2"
    and b2: "length (alerts (trace st')) = length (alerts (trace st1)) + length ts2"
    and b3: "sorted_wrt (\<lambda>x y. ?c \<le> y - x) (last_notification_time st1 # ts2)"
    and b4: "last_notification_time st' = last (last_notification_time st1 # ts2)"
    unfolding c1 by blast
  have "sorted_wrt (\<lambda>x y. ?c \<le> y - x) (last_notification_time st # ts1 @ ts2)"
    using sorted_wrt_chain [OF Cons.prems(1) a3] b3 a4 by simp
  moreover have "last_notification_time st' = last (last_notification_time st # ts1 @ ts2)"
    using b4 a4 by (cases ts2) simp_all
  ultimately show ?case
    using a1 a2 b1 b2 by (intro exI [of _ "ts1 @ ts2"]) simp
qed

lemma two_qualifying:
  assumes q1: "qualifying st b1" and q2: "qualifying st b2"
    and first: "notification_cooldown st \<le> clock_now e1 - last_notification_time st"
  shows "\<exists>fr' ds' st'.
           process_boxes st fr ds [(b1, e1), (b2, e2)] = Inr (fr', ds', st') \<and>
           alerts (trace st') =
             alerts (trace st) @ box_conf b1 #
               (if notification_cooldown st \<le> clock_now e2 - clock_now e1
                then [box_conf b2] else [])"
proof -
  define st1 where "st1 = notify_person ''person'' True (box_conf b1) e1 st"
  have st1: "st1 = st\<lparr>last_notification_time := clock_now e1,
              trace := trace st @ [StartThread (box_conf b1), StampUpdated (clock_now e1)],
              background := background st @ show_message (box_conf b1) (popup_ok e1)\<rparr>"
    unfolding st1_def using first by (simp add: notify_person_fire)
  have f1: "alerts (trace st1) = alerts (trace st) @ [box_conf b1]"
    "last_notification_time st1 = clock_now e1"
    "notification_cooldown st1 = notification_cooldown st"
    by (simp_all add: st1 alerts_append show_message_silent)
  have q2': "qualifying st1 b2" using q2 qualifying_kept [of st1 st b2] by (simp add: f1 st1_def)
  define st2 where "st2 = notify_person ''person'' True (box_conf b2) e2 st1"
  have s1: "process_box st fr ds (b1, e1) = Inr (annotate (config st) ''person'' True (box_conf b1) (box_xyxy b1) fr,
           ds @ [\<lparr> det_class = ''person'', det_confidence = box_conf b1,
                          det_bbox = box_xyxy b1, det_timestamp = clock_stamp e1 \<rparr>], st1)"
    unfolding st1_def by (rule qualifying_step [OF q1])
  have run: "process_boxes st fr ds [(b1, e1), (b2, e2)] =
      Inr (annotate (config st1) ''person'' True (box_conf b2) (box_xyxy b2)
             (annotate (config st) ''person'' True (box_conf b1) (box_xyxy b1) fr),
           (ds @ [\<lparr> det_class = ''person'', det_confidence = box_conf b1,
                          det_bbox = box_xyxy b1, det_timestamp = clock_stamp e1 \<rparr>]) @
             [\<lparr> det_class = ''person'', det_confidence = box_conf b2,
                          det_bbox = box_xyxy b2, det_timestamp = clock_stamp e2 \<rparr>],
           st2)"
    unfolding st2_def by (simp only: process_boxes.simps s1 qualifying_step [OF q2'] sum.case prod.case)
  have "alerts (trace st2) = alerts (trace st1) @
               (if notification_cooldown st \<le> clock_now e2 - clock_now e1
                then [box_conf b2] else [])"
  proof (cases "notification_cooldown st \<le> clock_now e2 - clock_now e1")
    case True
    then have "notification_cooldown st1 \<le> clock_now e2 - last_notification_time st1"
      by (simp add: f1)
    from notify_person_fire [OF refl TrueI this] True show ?thesis
      unfolding st2_def by (simp add: alerts_append show_message_silent)
  next
    case False
    then have "\<not> (''person'' = ''person'' \<and> True \<and>
         notification_cooldown st1 \<le> clock_now e2 - last_notification_time st1)"
      by (simp add: f1)
    from notify_person_skip [OF this] False show ?thesis
      unfolding st2_def by simp
  qed
  with run f1 show ?thesis by simp
qed

lemma session_trace: "alerts (trace session) = []" "stamps (trace session) = []"
  by (simp_all add: session_def load_model_def init_def load_config_def save_config_def)

lemma qualifying_person: "qualifying session (a_box 0 p) = (1 / 2 \<le> p)"
  by (simp add: qualifying_def session_fields coco_def a_box_def default_config_def
        is_target_class_def lower_person)

lemma sorted_wrt_last_ge:
  fixes c :: real
  assumes "0 \<le> c" and "sorted_wrt (\<lambda>x y. c \<le> y - x) (l # ts)"
  shows "l \<le> last (l # ts)"
  using assms
proof (induction ts arbitrary: l)
  case Nil
  then show ?case by simp
next
  case (Cons a ts)
  then have "a \<le> last (a # ts)" by simp
  moreover from Cons.prems have "l \<le> a" by auto
  ultimately show ?case by simp
qed

subsection \<open>Statistics of the loop\<close>

lemma process_frame_keeps:
  assumes "process_frame st fr bes = Inr (fr', ds', st')"
  shows "config st' = config st \<and> class_names st' = class_names st \<and> model st' = model st \<and>
         total_detections st' = total_detections st \<and>
         target_detections st' = target_detections st \<and>
         notification_cooldown st' = notification_cooldown st"
proof (cases "model st = None")
  case True
  with assms show ?thesis by (simp add: process_frame_def)
next
  case False
  with assms have "process_boxes st fr [] bes = Inr (fr', ds', st')"
    by (simp add: process_frame_def)
  then show ?thesis by (rule process_boxes_keeps)
qed

lemma change_confidence_stats:
  "total_detections (change_confidence pf inp st) = total_detections st"
  "target_detections (change_confidence pf inp st) = target_detections st"
  by (simp_all add: change_confidence_def Let_def split: prompt.splits option.splits)

lemma change_target_stats:
  "total_detections (change_target inp st) = total_detections st"
  "target_detections (change_target inp st) = target_detections st"
  by (simp_all add: change_target_def Let_def split: prompt.splits)

lemma handle_keyboard_input_stats:
  "total_detections (snd (handle_keyboard_input pf st k inp w)) = total_detections st"
  "target_detections (snd (handle_keyboard_input pf st k inp w)) = target_detections st"
  by (simp_all add: handle_keyboard_input_def Let_def change_confidence_stats change_target_stats)

lemma after_frame_stats:
  assumes "after_frame pf st i = Continue st' \<or> after_frame pf st i = Break st'"
  shows "total_detections st' = total_detections st \<and>
         target_detections st' = target_detections st"
proof -
  obtain c s where h: "handle_keyboard_input pf st (key i) (typed i) (write_ok i) = (c, s)"
    by (cases "handle_keyboard_input pf st (key i) (typed i) (write_ok i)")
  with assms have "st' = s" by (auto simp: after_frame_def split: if_splits)
  with handle_keyboard_input_stats [of pf st "key i" "typed i" "write_ok i"] h
  show ?thesis by simp
qed

lemma after_frame_returns:
  "\<exists>st'. after_frame pf st i = Continue st' \<or> after_frame pf st i = Break st'"
  by (cases "handle_keyboard_input pf st (key i) (typed i) (write_ok i)")
     (simp add: after_frame_def)

lemma save_detections_to_file_stats [simp]:
  "total_detections (save_detections_to_file ds ok st) = total_detections st"
  "target_detections (save_detections_to_file ds ok st) = target_detections st"
  by (simp_all add: save_detections_to_file_def)

lemma tick_stats:
  assumes "tick pf st i = Continue st' \<or> tick pf st i = Break st'"
  shows "total_detections st \<le> total_detections st' \<and>
         target_detections st \<le> target_detections st' \<and>
         target_detections st' - target_detections st \<le>
           total_detections st' - total_detections st"
proof (cases "paused st")
  case True
  with assms have "st' = st \<or> after_frame pf st i = Continue st' \<or> after_frame pf st i = Break st'"
    by (auto simp: tick_def split: if_splits)
  with after_frame_stats [of pf st i st'] show ?thesis by auto
next
  case np: False
  show ?thesis
  proof (cases "read_ret i")
    case False
    with np assms have "st' = emit [Print ''Failed to read frame'' []] st"
      by (simp add: tick_def)
    then show ?thesis by simp
  next
    case True
    show ?thesis
    proof (cases "process_frame st (read_frame i) (boxes i)")
      case (Inl err)
      with np True assms show ?thesis by (simp add: tick_def)
    next
      case (Inr r)
      obtain fr ds st1 where r: "r = (fr, ds, st1)" by (cases r)
      define st4 where "st4 = save_detections_to_file ds (append_ok i)
          (st1\<lparr>total_detections := total_detections st1 + int (length ds),
               target_detections := target_detections st1 +
                 int (length (filter (counts_as_target (config st1)) ds))\<rparr>)"
      from np True Inr r assms
      have "after_frame pf st4 i = Continue st' \<or> after_frame pf st4 i = Break st'"
        by (simp add: tick_def Let_def st4_def)
      from after_frame_stats [OF this] process_frame_keeps [of st "read_frame i" "boxes i" fr ds st1]
        Inr r
      have "total_detections st' = total_detections st + int (length ds)"
        "target_detections st' = target_detections st +
           int (length (filter (counts_as_target (config st1)) ds))"
        by (simp_all add: st4_def)
      moreover have "length (filter (counts_as_target (config st1)) ds) \<le> length ds"
        by (rule length_filter_le)
      ultimately show ?thesis by simp
    qed
  qed
qed

lemma run_loop_above:
  "\<forall>s\<in>set (run_loop pf st ins).
     total_detections st \<le> total_detections s \<and>
     target_detections st \<le> target_detections s \<and>
     (target_detections st \<le> total_detections st \<longrightarrow>
        target_detections s \<le> total_detections s)"
proof (induction ins arbitrary: st)
  case Nil
  then show ?case by simp
next
  case (Cons i ins)
  show ?case
  proof (cases "tick pf st i")
    case (Continue st1)
    with tick_stats [of pf st i st1] Cons.IH [of st1] show ?thesis by fastforce
  next
    case (Break st1)
    with tick_stats [of pf st i st1] show ?thesis by fastforce
  next
    case (Raise err)
    then show ?thesis by simp
  qed
qed

lemma process_frame_detections:
  assumes "model st \<noteq> None"
    and "\<forall>be\<in>set bes. class_names st (box_cls (fst be)) \<noteq> None"
  shows "\<exists>fr' st'. process_frame st fr bes =
           Inr (fr',
                map (\<lambda>(b, e). \<lparr> det_class = lower (the (class_names st (box_cls b))),
                                det_confidence = box_conf b, det_bbox = box_xyxy b,
                                det_timestamp = clock_stamp e \<rparr>)
                  (filter (\<lambda>(b, e). confidence_threshold (config st) \<le> box_conf b) bes),
                st')"
proof -
  from process_boxes_total [OF assms(2)] obtain fr' ds' st' where
    r: "process_boxes st fr [] bes = Inr (fr', ds', st')" by (metis prod_cases3)
  have "process_frame st fr bes = process_boxes st fr [] bes"
    using assms(1) by (auto simp: process_frame_def)
  with process_boxes_detections [OF r] r show ?thesis by simp
qed

lemma tick_counts:
  assumes np: "\<not> paused st" and rd: "read_ret i" and m: "model st \<noteq> None"
    and known: "\<forall>be\<in>set (boxes i). class_names st (box_cls (fst be)) \<noteq> None"
  shows "\<exists>st'. (tick pf st i = Continue st' \<or> tick pf st i = Break st') \<and>
           total_detections st' = total_detections st +
             int (length (filter (\<lambda>(b, e). confidence_threshold (config st) \<le> box_conf b)
                    (boxes i))) \<and>
           target_detections st' = target_detections st +
             int (length (filter (\<lambda>(b, e). confidence_threshold (config st) \<le> box_conf b \<and>
                    is_target_class (config st) (lower (the (class_names st (box_cls b)))))
                    (boxes i)))"
proof -
  let ?mk = "\<lambda>(b, e). \<lparr> det_class = lower (the (class_names st (box_cls b))),
                         det_confidence = box_conf b, det_bbox = box_xyxy b,
                         det_timestamp = clock_stamp e \<rparr>"
  let ?above = "\<lambda>(b, e). confidence_threshold (config st) \<le> box_conf b"
  let ?ds = "map ?mk (filter ?above (boxes i))"
  from process_frame_detections [OF m known, of "read_frame i"] obtain fr st1 where
    pf: "process_frame st (read_frame i) (boxes i) = Inr (fr, ?ds, st1)" by blast
  from process_frame_keeps [OF pf] have k: "config st1 = config st"
    "total_detections st1 = total_detections st" "target_detections st1 = target_detections st"
    by simp_all
  define st4 where "st4 = save_detections_to_file ?ds (append_ok i)
          (st1\<lparr>total_detections := total_detections st1 + int (length ?ds),
               target_detections := target_detections st1 +
                 int (length (filter (counts_as_target (config st1)) ?ds))\<rparr>)"
  have t: "tick pf st i = after_frame pf st4 i"
    using np rd pf by (simp add: tick_def Let_def st4_def)
  from after_frame_returns [of pf st4 i] obtain st' where
    r: "after_frame pf st4 i = Continue st' \<or> after_frame pf st4 i = Break st'" by blast
  have cnt: "filter (counts_as_target (config st)) ?ds =
      map ?mk (filter (\<lambda>(b, e). confidence_threshold (config st) \<le> box_conf b \<and>
                    is_target_class (config st) (lower (the (class_names st (box_cls b)))))
                 (boxes i))"
    by (simp add: filter_map o_def counts_as_target_def is_target_class_def case_prod_unfold
          conj_commute)
  from after_frame_stats [OF r]
  have "total_detections st' = total_detections st + int (length ?ds)"
    "target_detections st' = target_detections st +
        int (length (filter (counts_as_target (config st)) ?ds))"
    by (simp_all add: st4_def k)
  with r t show ?thesis unfolding cnt by (intro exI [of _ st']) simp
qed

lemma target_marks_append: "target_marks (xs @ ys) = target_marks xs @ target_marks ys"
  by (induction xs rule: target_marks.induct) simp_all

lemma annotate_marks:
  "target_marks (drawn (annotate c n t p bbox fr)) =
     target_marks (drawn fr) @ (if t then [(n, p)] else [])"
  by (cases bbox; cases t) (simp_all add: annotate_def target_marks_append Let_def)

lemma notify_person_alerts:
  "\<exists>nt. trace (notify_person n t c e st) = trace st @ nt \<and>
        set (alerts nt) \<subseteq> (if n = ''person'' \<and> t then {c} else {})"
proof (cases "n = ''person'' \<and> t \<and>
              notification_cooldown st \<le> clock_now e - last_notification_time st")
  case True
  then have "notify_person n t c e st =
           st\<lparr>last_notification_time := clock_now e,
              trace := trace st @ [StartThread c, StampUpdated (clock_now e)],
              background := background st @ show_message c (popup_ok e)\<rparr>"
    by (simp add: notify_person_fire)
  with True show ?thesis
    by (intro exI [of _ "[StartThread c, StampUpdated (clock_now e)]"])
       (simp add: alerts_append show_message_silent)
next
  case False
  then have "notify_person n t c e st = st" by (rule notify_person_skip)
  then show ?thesis by (intro exI [of _ "[]"]) simp
qed

lemma process_box_agree:
  assumes s: "process_box st fr ds (b, e) = Inr (fr', ds', st')"
  shows "\<exists>nd nt. ds' = ds @ nd \<and> trace st' = trace st @ nt \<and>
           (\<forall>d\<in>set nd. counts_as_target (config st) d = is_target_class (config st) (det_class d)) \<and>
           target_marks (drawn fr') = target_marks (drawn fr) @
             map (\<lambda>d. (det_class d, det_confidence d))
               (filter (counts_as_target (config st)) nd) \<and>
           set (alerts nt) \<subseteq> set (map det_confidence
               (filter (\<lambda>d. counts_as_target (config st) d \<and> det_class d = ''person'') nd))"
proof (cases "confidence_threshold (config st) \<le> box_conf b")
  case False
  with process_box_Inr [OF s] have "ds' = ds" "st' = st" "fr' = fr" by auto
  then show ?thesis by (intro exI [of _ "[]"]) simp
next
  case True
  with process_box_Inr [OF s] obtain name where
    d: "ds' = ds @ [\<lparr> det_class = lower name, det_confidence = box_conf b,
                            det_bbox = box_xyxy b, det_timestamp = clock_stamp e \<rparr>]"
    and st': "st' = notify_person (lower name) (is_target_class (config st) (lower name))
                      (box_conf b) e st"
    and fr': "fr' = annotate (config st) (lower name) (is_target_class (config st) (lower name))
                      (box_conf b) (box_xyxy b) fr"
    by auto
  from notify_person_alerts [of "lower name" "is_target_class (config st) (lower name)"
      "box_conf b" e st] st'
  obtain nt where nt: "trace st' = trace st @ nt"
    "set (alerts nt) \<subseteq> (if lower name = ''person'' \<and> is_target_class (config st) (lower name)
                         then {box_conf b} else {})" by auto
  show ?thesis
    apply (intro exI [of _ "[\<lparr> det_class = lower name, det_confidence = box_conf b,
                            det_bbox = box_xyxy b, det_timestamp = clock_stamp e \<rparr>]"]
        exI [of _ nt])
    using d nt fr'
    by (auto simp: annotate_marks counts_as_target_def is_target_class_def split: if_splits)
qed

lemma process_boxes_agree:
  "process_boxes st fr ds bes = Inr (fr', ds', st') \<Longrightarrow>
   \<exists>nd nt. ds' = ds @ nd \<and> trace st' = trace st @ nt \<and>
     (\<forall>d\<in>set nd. counts_as_target (config st) d = is_target_class (config st) (det_class d)) \<and>
     target_marks (drawn fr') = target_marks (drawn fr) @
       map (\<lambda>d. (det_class d, det_confidence d)) (filter (counts_as_target (config st)) nd) \<and>
     set (alerts nt) \<subseteq> set (map det_confidence
         (filter (\<lambda>d. counts_as_target (config st) d \<and> det_class d = ''person'') nd))"
proof (induction bes arbitrary: st fr ds)
  case Nil
  then show ?case by (intro exI [of _ "[]"]) simp
next
  case (Cons be bes)
  obtain b e where be: "be = (b, e)" by (cases be)
  from Cons.prems obtain fr1 ds1 st1 where
    s: "process_box st fr ds (b, e) = Inr (fr1, ds1, st1)" and
    r: "process_boxes st1 fr1 ds1 bes = Inr (fr', ds', st')"
    by (auto simp: be split: sum.splits)
  have k: "config st1 = config st" using process_box_keeps [OF s] by simp
  from process_box_agree [OF s] obtain nd1 nt1 where a:
    "ds1 = ds @ nd1" "trace st1 = trace st @ nt1"
    "\<forall>d\<in>set nd1. counts_as_target (config st) d = is_target_class (config st) (det_class d)"
    "target_marks (drawn fr1) = target_marks (drawn fr) @
       map (\<lambda>d. (det_class d, det_confidence d)) (filter (counts_as_target (config st)) nd1)"
    "set (alerts nt1) \<subseteq> set (map det_confidence
         (filter (\<lambda>d. counts_as_target (config st) d \<and> det_class d = ''person'') nd1))"
    by blast
  from Cons.IH [OF r] obtain nd2 nt2 where b:
    "ds' = ds1 @ nd2" "trace st' = trace st1 @ nt2"
    "\<forall>d\<in>set nd2. counts_as_target (config st) d = is_target_class (config st) (det_class d)"
    "target_marks (drawn fr') = target_marks (drawn fr1) @
       map (\<lambda>d. (det_class d, det_confidence d)) (filter (counts_as_target (config st)) nd2)"
    "set (alerts nt2) \<subseteq> set (map det_confidence
         (filter (\<lambda>d. counts_as_target (config st) d \<and> det_class d = ''person'') nd2))"
    unfolding k by blast
  show ?case
    apply (intro exI [of _ "nd1 @ nd2"] exI [of _ "nt1 @ nt2"])
    using a b by (auto simp: alerts_append)
qed

subsection \<open>The notifier along the loop\<close>

lemma change_confidence_notifier:
  "stamps (trace (change_confidence pf inp st)) = stamps (trace st)"
  "alerts (trace (change_confidence pf inp st)) = alerts (trace st)"
  "last_notification_time (change_confidence pf inp st) = last_notification_time st"
  "notification_cooldown (change_confidence pf inp st) = notification_cooldown st"
  by (simp_all add: change_confidence_def Let_def stamps_append alerts_append
        split: prompt.splits option.splits)

lemma change_target_notifier:
  "stamps (trace (change_target inp st)) = stamps (trace st)"
  "alerts (trace (change_target inp st)) = alerts (trace st)"
  "last_notification_time (change_target inp st) = last_notification_time st"
  "notification_cooldown (change_target inp st) = notification_cooldown st"
  by (simp_all add: change_target_def Let_def stamps_append alerts_append split: prompt.splits)

lemma handle_keyboard_input_notifier:
  "stamps (trace (snd (handle_keyboard_input pf st k inp w))) = stamps (trace st)"
  "alerts (trace (snd (handle_keyboard_input pf st k inp w))) = alerts (trace st)"
  "last_notification_time (snd (handle_keyboard_input pf st k inp w)) = last_notification_time st"
  "notification_cooldown (snd (handle_keyboard_input pf st k inp w)) = notification_cooldown st"
  by (simp_all add: handle_keyboard_input_def Let_def change_confidence_notifier
        change_target_notifier save_config_def stamps_append alerts_append)

lemma after_frame_notifier:
  assumes "after_frame pf st i = Continue st' \<or> after_frame pf st i = Break st'"
  shows "stamps (trace st') = stamps (trace st) \<and> alerts (trace st') = alerts (trace st) \<and>
         last_notification_time st' = last_notification_time st \<and>
         notification_cooldown st' = notification_cooldown st"
proof -
  obtain c s where h: "handle_keyboard_input pf st (key i) (typed i) (write_ok i) = (c, s)"
    by (cases "handle_keyboard_input pf st (key i) (typed i) (write_ok i)")
  with assms have "st' = s" by (auto simp: after_frame_def split: if_splits)
  with handle_keyboard_input_notifier [of pf st "key i" "typed i" "write_ok i"] h
  show ?thesis by simp
qed

lemma save_detections_to_file_notifier [simp]:
  "stamps (trace (save_detections_to_file ds ok st)) = stamps (trace st)"
  "alerts (trace (save_detections_to_file ds ok st)) = alerts (trace st)"
  "last_notification_time (save_detections_to_file ds ok st) = last_notification_time st"
  "notification_cooldown (save_detections_to_file ds ok st) = notification_cooldown st"
  by (simp_all add: save_detections_to_file_def stamps_append alerts_append)

lemma tick_spaced:
  assumes c: "0 \<le> notification_cooldown st"
    and t: "tick pf st i = Continue st' \<or> tick pf st i = Break st'"
  shows "\<exists>ts. stamps (trace st') = stamps (trace st) @ ts \<and>
          length (alerts (trace st')) = length (alerts (trace st)) + length ts \<and>
          sorted_wrt (\<lambda>x y. notification_cooldown st \<le> y - x) (last_notification_time st # ts) \<and>
          last_notification_time st' = last (last_notification_time st # ts) \<and>
          notification_cooldown st' = notification_cooldown st"
proof -
  have same: ?thesis
    if "stamps (trace st') = stamps (trace st)" "alerts (trace st') = alerts (trace st)"
       "last_notification_time st' = last_notification_time st"
       "notification_cooldown st' = notification_cooldown st"
    using that by (intro exI [of _ "[]"]) simp
  show ?thesis
  proof (cases "paused st")
    case True
    with t have "st' = st \<or> after_frame pf st i = Continue st' \<or> after_frame pf st i = Break st'"
      by (auto simp: tick_def split: if_splits)
    then have "stamps (trace st') = stamps (trace st) \<and> alerts (trace st') = alerts (trace st) \<and>
         last_notification_time st' = last_notification_time st \<and>
         notification_cooldown st' = notification_cooldown st"
      using after_frame_notifier [of pf st i st'] by blast
    then show ?thesis by (intro same) simp_all
  next
    case np: False
    show ?thesis
    proof (cases "read_ret i")
      case False
      with np t have "st' = emit [Print ''Failed to read frame'' []] st"
        by (simp add: tick_def)
      then show ?thesis by (intro same) (simp_all add: stamps_append alerts_append)
    next
      case True
      show ?thesis
      proof (cases "process_frame st (read_frame i) (boxes i)")
        case (Inl err)
        with np True t show ?thesis by (simp add: tick_def)
      next
        case (Inr r)
        obtain fr ds st1 where r: "r = (fr, ds, st1)" by (cases r)
        define st4 where "st4 = save_detections_to_file ds (append_ok i)
            (st1\<lparr>total_detections := total_detections st1 + int (length ds),
                 target_detections := target_detections st1 +
                   int (length (filter (counts_as_target (config st1)) ds))\<rparr>)"
        from np True Inr r t
        have a: "after_frame pf st4 i = Continue st' \<or> after_frame pf st4 i = Break st'"
          by (simp add: tick_def Let_def st4_def)
        have k: "stamps (trace st') = stamps (trace st1)" "alerts (trace st') = alerts (trace st1)"
          "last_notification_time st' = last_notification_time st1"
          "notification_cooldown st' = notification_cooldown st1"
          using after_frame_notifier [OF a] by (simp_all add: st4_def)
        show ?thesis
        proof (cases "model st = None")
          case True
          with Inr r have "st1 = st" by (simp add: process_frame_def)
          with k show ?thesis by (intro same) simp_all
        next
          case False
          with Inr r have "process_boxes st (read_frame i) [] (boxes i) = Inr (fr, ds, st1)"
            by (simp add: process_frame_def)
          from process_boxes_spaced [OF c this] process_boxes_keeps [OF this]
          obtain ts where
            "stamps (trace st1) = stamps (trace st) @ ts"
            "length (alerts (trace st1)) = length (alerts (trace st)) + length ts"
            "sorted_wrt (\<lambda>x y. notification_cooldown st \<le> y - x) (last_notification_time st # ts)"
            "last_notification_time st1 = last (last_notification_time st # ts)"
            "notification_cooldown st1 = notification_cooldown st" by blast
          with k show ?thesis by (intro exI [of _ ts]) simp
        qed
      qed
    qed
  qed
qed

lemma run_loop_spaced:
  "0 \<le> notification_cooldown st \<Longrightarrow> s \<in> set (run_loop pf st ins) \<Longrightarrow>
   \<exists>ts. stamps (trace s) = stamps (trace st) @ ts \<and>
        length (alerts (trace s)) = length (alerts (trace st)) + length ts \<and>
        sorted_wrt (\<lambda>x y. notification_cooldown st \<le> y - x) (last_notification_time st # ts)"
proof (induction ins arbitrary: st)
  case Nil
  then show ?case by simp
next
  case (Cons i ins)
  let ?c = "notification_cooldown st"
  from Cons.prems(2) obtain st1 where
    t: "tick pf st i = Continue st1 \<or> tick pf st i = Break st1"
    and s: "s = st1 \<or> (tick pf st i = Continue st1 \<and> s \<in> set (run_loop pf st1 ins))"
    by (cases "tick pf st i") auto
  from tick_spaced [OF Cons.prems(1) t] obtain ts1 where a:
    "stamps (trace st1) = stamps (trace st) @ ts1"
    "length (alerts (trace st1)) = length (alerts (trace st)) + length ts1"
    "sorted_wrt (\<lambda>x y. ?c \<le> y - x) (last_notification_time st # ts1)"
    "last_notification_time st1 = last (last_notification_time st # ts1)"
    "notification_cooldown st1 = ?c" by blast
  from s show ?case
  proof
    assume "s = st1"
    with a show ?thesis by blast
  next
    assume "tick pf st i = Continue st1 \<and> s \<in> set (run_loop pf st1 ins)"
    moreover have "0 \<le> notification_cooldown st1" using a(5) Cons.prems(1) by simp
    ultimately obtain ts2 where b:
      "stamps (trace s) = stamps (trace st1) @ ts2"
      "length (alerts (trace s)) = length (alerts (trace st1)) + length ts2"
      "sorted_wrt (\<lambda>x y. ?c \<le> y - x) (last_notification_time st1 # ts2)"
      using Cons.IH [of st1] a(5) by auto
    have "sorted_wrt (\<lambda>x y. ?c \<le> y - x) (last_notification_time st # ts1 @ ts2)"
      using sorted_wrt_chain [OF Cons.prems(1) a(3)] b(3) a(4) by simp
    with a b show ?thesis by (intro exI [of _ "ts1 @ ts2"]) simp
  qed
qed

subsection \<open>Editing the configuration\<close>

lemma split_not_Nil: "split sep s \<noteq> []"
  by (induction s) (simp_all split: list.splits)

lemma change_confidence_in_range:
  assumes "0 \<le> confidence_threshold (config st) \<and> confidence_threshold (config st) \<le> 1"
  shows "0 \<le> confidence_threshold (config (change_confidence pf inp st)) \<and>
         confidence_threshold (config (change_confidence pf inp st)) \<le> 1"
  using assms by (simp add: change_confidence_def Let_def split: prompt.splits option.splits)

lemma default_threshold_in_range:
  "0 \<le> confidence_threshold default_config \<and> confidence_threshold default_config \<le> 1"
  by (simp add: default_config_def)

section \<open>The claims\<close>

subsection \<open>Cooldown of the notifier\<close>

text \<open>
  Claim C1. A qualifying detection (above the threshold, label \<open>person\<close> in lower case, a
  target) fires an alert at time \<open>now\<close> exactly when \<open>now - last_fired \<ge> cooldown\<close>: then one
  alert is added and \<open>last_fired\<close> becomes \<open>now\<close>, otherwise the detector is unchanged.
  Over any list of boxes, and over any number of iterations of the loop of \<open>run\<close>, the
  times written to \<open>last_fired\<close> are at least the cooldown apart, from each other and from
  the previous fire time, and there is one alert for each. When the detection at \<open>t\<close> fires, a second
  qualifying detection at \<open>t + C - \<epsilon>\<close> gives one alert in all, and one at \<open>t + C\<close> gives two.
\<close>

theorem notifier_cooldown:
  "(qualifying st b \<longrightarrow>
      (\<exists>fr' ds' st'. process_box st fr ds (b, e) = Inr (fr', ds', st') \<and>
         (if notification_cooldown st \<le> clock_now e - last_notification_time st
          then alerts (trace st') = alerts (trace st) @ [box_conf b] \<and>
               last_notification_time st' = clock_now e
          else st' = st))) \<and>
   (0 \<le> notification_cooldown st \<and> process_boxes st fr ds bes = Inr (frz, dsz, stz) \<longrightarrow>
      (\<exists>ts. stamps (trace stz) = stamps (trace st) @ ts \<and>
            length (alerts (trace stz)) = length (alerts (trace st)) + length ts \<and>
            sorted_wrt (\<lambda>x y. notification_cooldown st \<le> y - x)
              (last_notification_time st # ts))) \<and>
   (qualifying st b \<and> qualifying st b' \<and>
    notification_cooldown st \<le> clock_now e - last_notification_time st \<and>
    0 < eps \<and> clock_now e' = clock_now e + notification_cooldown st - eps \<longrightarrow>
      (\<exists>fr' ds' st'. process_boxes st fr ds [(b, e), (b', e')] = Inr (fr', ds', st') \<and>
         alerts (trace st') = alerts (trace st) @ [box_conf b])) \<and>
   (qualifying st b \<and> qualifying st b' \<and>
    notification_cooldown st \<le> clock_now e - last_notification_time st \<and>
    clock_now e' = clock_now e + notification_cooldown st \<longrightarrow>
      (\<exists>fr' ds' st'. process_boxes st fr ds [(b, e), (b', e')] = Inr (fr', ds', st') \<and>
         alerts (trace st') = alerts (trace st) @ [box_conf b, box_conf b'])) \<and>
   (0 \<le> notification_cooldown st \<and> s \<in> set (run_loop pf st ins) \<longrightarrow>
      (\<exists>ts. stamps (trace s) = stamps (trace st) @ ts \<and>
            length (alerts (trace s)) = length (alerts (trace st)) + length ts \<and>
            sorted_wrt (\<lambda>x y. notification_cooldown st \<le> y - x)
              (last_notification_time st # ts)))"
proof (intro conjI impI)
  assume q: "qualifying st b"
  show "\<exists>fr' ds' st'. process_box st fr ds (b, e) = Inr (fr', ds', st') \<and>
         (if notification_cooldown st \<le> clock_now e - last_notification_time st
          then alerts (trace st') = alerts (trace st) @ [box_conf b] \<and>
               last_notification_time st' = clock_now e
          else st' = st)"
  proof (cases "notification_cooldown st \<le> clock_now e - last_notification_time st")
    case True
    from notify_person_fire [OF refl TrueI True] True show ?thesis
      by (simp add: qualifying_step [OF q] alerts_append show_message_silent)
  next
    case False
    then have "notify_person ''person'' True (box_conf b) e st = st"
      by (simp add: notify_person_skip)
    with False show ?thesis by (simp add: qualifying_step [OF q])
  qed
next
  assume "0 \<le> notification_cooldown st \<and> process_boxes st fr ds bes = Inr (frz, dsz, stz)"
  then show "\<exists>ts. stamps (trace stz) = stamps (trace st) @ ts \<and>
            length (alerts (trace stz)) = length (alerts (trace st)) + length ts \<and>
            sorted_wrt (\<lambda>x y. notification_cooldown st \<le> y - x)
              (last_notification_time st # ts)"
    using process_boxes_spaced [of st fr ds bes frz dsz stz] by blast
next
  assume a: "qualifying st b \<and> qualifying st b' \<and>
    notification_cooldown st \<le> clock_now e - last_notification_time st \<and>
    0 < eps \<and> clock_now e' = clock_now e + notification_cooldown st - eps"
  then have "\<not> notification_cooldown st \<le> clock_now e' - clock_now e" by simp
  with a two_qualifying [of st b b' e fr ds e']
  show "\<exists>fr' ds' st'. process_boxes st fr ds [(b, e), (b', e')] = Inr (fr', ds', st') \<and>
         alerts (trace st') = alerts (trace st) @ [box_conf b]"
    by simp
next
  assume a: "qualifying st b \<and> qualifying st b' \<and>
    notification_cooldown st \<le> clock_now e - last_notification_time st \<and>
    clock_now e' = clock_now e + notification_cooldown st"
  then have "notification_cooldown st \<le> clock_now e' - clock_now e" by simp
  with a two_qualifying [of st b b' e fr ds e']
  show "\<exists>fr' ds' st'. process_boxes st fr ds [(b, e), (b', e')] = Inr (fr', ds', st') \<and>
         alerts (trace st') = alerts (trace st) @ [box_conf b, box_conf b']"
    by simp
next
  assume "0 \<le> notification_cooldown st \<and> s \<in> set (run_loop pf st ins)"
  then show "\<exists>ts. stamps (trace s) = stamps (trace st) @ ts \<and>
            length (alerts (trace s)) = length (alerts (trace st)) + length ts \<and>
            sorted_wrt (\<lambda>x y. notification_cooldown st \<le> y - x)
              (last_notification_time st # ts)"
    using run_loop_spaced [of st s pf ins] by blast
qed

text \<open>
  The fresh session (\<open>last_fired = 0\<close>, cooldown 5): persons at times 100 and 104 give one
  alert, at 100 and 105 two; three iterations with a person at times 100, 103 and 106 write
  the timestamps 100 and 106.
\<close>

theorem notifier_cooldown_witness:
  "qualifying session (a_box 0 0.9) \<and> qualifying session (a_box 0 0.8) \<and>
   notification_cooldown session \<le> clock_now (at_time 100) - last_notification_time session \<and>
   (\<exists>fr' ds' st'. process_boxes session blank []
        [(a_box 0 0.9, at_time 100), (a_box 0 0.8, at_time 104)] = Inr (fr', ds', st') \<and>
      alerts (trace st') = [0.9]) \<and>
   (\<exists>fr' ds' st'. process_boxes session blank []
        [(a_box 0 0.9, at_time 100), (a_box 0 0.8, at_time 105)] = Inr (fr', ds', st') \<and>
      alerts (trace st') = [0.9, 0.8]) \<and>
   0 \<le> notification_cooldown session \<and>
   map (\<lambda>s. stamps (trace s))
     (run_loop (\<lambda>s. None) session
        [a_tick [(a_box 0 0.9, at_time 100)] 255, a_tick [(a_box 0 0.9, at_time 103)] 255,
         a_tick [(a_box 0 0.9, at_time 106)] 113]) = [[100], [100], [100, 106]] \<and>
   sorted_wrt (\<lambda>x y. notification_cooldown session \<le> y - x)
     (last_notification_time session #
      stamps (trace (last (run_loop (\<lambda>s. None) session
        [a_tick [(a_box 0 0.9, at_time 100)] 255, a_tick [(a_box 0 0.9, at_time 103)] 255,
         a_tick [(a_box 0 0.9, at_time 106)] 113]))))"
proof -
  let ?ins = "[a_tick [(a_box 0 0.9, at_time 100)] 255, a_tick [(a_box 0 0.9, at_time 103)] 255,
         a_tick [(a_box 0 0.9, at_time 106)] 113]"
  let ?run = "run_loop (\<lambda>s. None) session ?ins"
  have q: "qualifying session (a_box 0 0.9)" "qualifying session (a_box 0 0.8)"
    by (simp_all add: qualifying_person)
  have c: "notification_cooldown session \<le>
             clock_now (at_time 100) - last_notification_time session"
    by (simp add: session_fields at_time_def)
  have t1: "(0::real) < 1 \<and>
      clock_now (at_time 104) = clock_now (at_time 100) + notification_cooldown session - 1"
    by (simp add: session_fields at_time_def)
  have t2: "clock_now (at_time 105) = clock_now (at_time 100) + notification_cooldown session"
    by (simp add: session_fields at_time_def)
  from notifier_cooldown [where st = session and b = "a_box 0 0.9" and b' = "a_box 0 0.8"
      and e = "at_time 100" and e' = "at_time 104" and eps = 1 and fr = blank and ds = "[]"]
    q c t1
  have one: "\<exists>fr' ds' st'. process_boxes session blank []
        [(a_box 0 0.9, at_time 100), (a_box 0 0.8, at_time 104)] = Inr (fr', ds', st') \<and>
      alerts (trace st') = [0.9]"
    by (simp add: session_trace a_box_def)
  from notifier_cooldown [where st = session and b = "a_box 0 0.9" and b' = "a_box 0 0.8"
      and e = "at_time 100" and e' = "at_time 105" and fr = blank and ds = "[]"]
    q c t2
  have two: "\<exists>fr' ds' st'. process_boxes session blank []
        [(a_box 0 0.9, at_time 100), (a_box 0 0.8, at_time 105)] = Inr (fr', ds', st') \<and>
      alerts (trace st') = [0.9, 0.8]"
    by (simp add: session_trace a_box_def)
  have c0: "0 \<le> notification_cooldown session" by (simp add: session_fields)
  have v: "map (\<lambda>s. stamps (trace s)) ?run = [[100], [100], [100, 106]]"
    by (simp add: a_tick_def tick_def process_frame_def process_box_def session_fields coco_def
          a_box_def at_time_def default_config_def lower_person is_target_class_def
          notify_person_def show_notification_def show_message_def annotate_def
          save_detections_to_file_def counts_as_target_def after_frame_def
          handle_keyboard_input_def Let_def session_trace stamps_append)
  then have "?run \<noteq> []" by auto
  then have mem: "last ?run \<in> set ?run" by (rule last_in_set)
  from notifier_cooldown [where st = session and s = "last ?run" and pf = "\<lambda>s. None"
      and ins = ?ins] c0 mem
  have three: "sorted_wrt (\<lambda>x y. notification_cooldown session \<le> y - x)
     (last_notification_time session # stamps (trace (last ?run)))"
    by (auto simp: session_trace)
  from q c one two c0 v three show ?thesis by blast
qed

subsection \<open>The confidence threshold of the filter\<close>

text \<open>
  Claim C3. With a model loaded and every class id known to \<open>class_names\<close>, the detections
  returned by \<open>process_frame\<close> are those of the boxes whose confidence \<open>c\<close> satisfies
  \<open>c \<ge> t\<close>, in the order of the boxes, for every threshold \<open>t\<close>; a box with \<open>c = t\<close> is
  included.
\<close>

theorem process_frame_threshold:
  assumes "model st \<noteq> None"
    and "\<forall>be\<in>set bes. class_names st (box_cls (fst be)) \<noteq> None"
  shows "\<exists>fr' st'. process_frame st fr bes =
           Inr (fr',
                map (\<lambda>(b, e). \<lparr> det_class = lower (the (class_names st (box_cls b))),
                                det_confidence = box_conf b, det_bbox = box_xyxy b,
                                det_timestamp = clock_stamp e \<rparr>)
                  (filter (\<lambda>(b, e). confidence_threshold (config st) \<le> box_conf b) bes),
                st')"
  using assms by (rule process_frame_detections)

text \<open>Threshold 0.5: confidences 0.6 and 0.5 are kept, 0.3 is dropped.\<close>

theorem process_frame_threshold_witness:
  "model session \<noteq> None \<and>
   list_all (\<lambda>be. class_names session (box_cls (fst be)) \<noteq> None)
     [(a_box 0 0.6, at_time 1), (a_box 16 0.5, at_time 2), (a_box 16 0.3, at_time 3)] \<and>
   (\<exists>fr' st'. process_frame session blank
       [(a_box 0 0.6, at_time 1), (a_box 16 0.5, at_time 2), (a_box 16 0.3, at_time 3)] =
     Inr (fr',
          [\<lparr> det_class = ''person'', det_confidence = 0.6, det_bbox = (10, 20, 110, 220),
              det_timestamp = 1 \<rparr>,
           \<lparr> det_class = ''dog'', det_confidence = 0.5, det_bbox = (10, 20, 110, 220),
              det_timestamp = 2 \<rparr>],
          st'))"
proof -
  let ?bes = "[(a_box 0 0.6, at_time 1), (a_box 16 0.5, at_time 2), (a_box 16 0.3, at_time 3)]"
  have h1: "model session \<noteq> None" by (simp add: session_fields)
  have h2: "\<forall>be\<in>set ?bes. class_names session (box_cls (fst be)) \<noteq> None"
    by (simp add: session_fields coco_def a_box_def)
  from process_frame_threshold [OF h1 h2, of blank] h1 h2 show ?thesis
    by (simp add: session_fields coco_def a_box_def at_time_def default_config_def
          lower_person lower_dog)
qed

subsection \<open>No model loaded\<close>

text \<open>
  Claim C10. When no model is loaded, \<open>process_frame\<close> returns the frame it was given, no
  detection, and the detector as it was, for every frame and whatever the boxes would be.
\<close>

theorem process_frame_without_model:
  assumes "model st = None"
  shows "process_frame st fr bes = Inr (fr, [], st)"
  using assms unfolding process_frame_def by simp

theorem process_frame_without_model_witness:
  "model (init ''detector_config.json'' NoFile True) = None \<and>
   process_frame (init ''detector_config.json'' NoFile True) blank [(a_box 0 0.9, at_time 100)] =
     Inr (blank, [], init ''detector_config.json'' NoFile True)"
proof -
  have h: "model (init ''detector_config.json'' NoFile True) = None"
    by (simp add: init_def load_config_def)
  from process_frame_without_model [OF h] h show ?thesis by simp
qed

subsection \<open>Order of dispatch and timestamp\<close>

text \<open>
  Claim C2 says that on a fire the timestamp is written before the alert is dispatched.
  In the source the call \<open>self.show_notification(...)\<close> (line 182) comes before the
  assignment to \<open>self.last_notification_time\<close> (line 183): from an empty trace, a person at
  time 100 gives the thread start, the popup of the thread, and then the timestamp.
\<close>

theorem stamp_before_dispatch_counterexample:
  "final_trace (process_box (session\<lparr>trace := []\<rparr>) blank [] (a_box 0 0.9, at_time 100)) =
     [StartThread 0.9, StampUpdated 100]"
  by (simp add: final_trace_def process_box_def session_fields coco_def a_box_def at_time_def
        default_config_def lower_person is_target_class_def notify_person_def
        show_notification_def show_message_def emit_def Let_def)

text \<open>
  Claim C2, amended. On every fire the notifier first starts the alert thread and then
  sets \<open>last_fired = now\<close>. Whether the presentation in the thread succeeds or fails
  (\<open>popup_ok\<close>), the step returns, the timestamp is \<open>now\<close>, and no later box of the frame
  moves it back below \<open>now\<close>.
\<close>

theorem dispatch_then_stamp:
  assumes q: "qualifying st b"
    and c: "notification_cooldown st \<le> clock_now e - last_notification_time st"
  shows "\<exists>fr' ds' st'. process_box st fr ds (b, e) = Inr (fr', ds', st') \<and>
           trace st' = trace st @ [StartThread (box_conf b), StampUpdated (clock_now e)] \<and>
           background st' = background st @ show_message (box_conf b) (popup_ok e) \<and>
           last_notification_time st' = clock_now e \<and>
           (\<forall>bes frz dsz stz.
              0 \<le> notification_cooldown st \<and>
              process_boxes st' fr' ds' bes = Inr (frz, dsz, stz) \<longrightarrow>
                clock_now e \<le> last_notification_time stz)"
proof -
  define st' where "st' = notify_person ''person'' True (box_conf b) e st"
  have st': "st' = st\<lparr>last_notification_time := clock_now e,
              trace := trace st @ [StartThread (box_conf b), StampUpdated (clock_now e)],
              background := background st @ show_message (box_conf b) (popup_ok e)\<rparr>"
    unfolding st'_def by (rule notify_person_fire [OF refl TrueI c])
  have later: "clock_now e \<le> last_notification_time stz"
    if "0 \<le> notification_cooldown st" and "process_boxes st' fr' ds' bes = Inr (frz, dsz, stz)"
    for bes fr' ds' frz dsz stz
  proof -
    have "0 \<le> notification_cooldown st'" using that(1) by (simp add: st')
    from process_boxes_spaced [OF this that(2)] obtain ts where
      "sorted_wrt (\<lambda>x y. notification_cooldown st' \<le> y - x) (last_notification_time st' # ts)"
      and "last_notification_time stz = last (last_notification_time st' # ts)" by blast
    with sorted_wrt_last_ge [OF \<open>0 \<le> notification_cooldown st'\<close>]
    have "last_notification_time st' \<le> last_notification_time stz" by simp
    then show ?thesis by (simp add: st')
  qed
  have "process_box st fr ds (b, e) =
      Inr (annotate (config st) ''person'' True (box_conf b) (box_xyxy b) fr,
           ds @ [\<lparr> det_class = ''person'', det_confidence = box_conf b,
                     det_bbox = box_xyxy b, det_timestamp = clock_stamp e \<rparr>], st')"
    unfolding st'_def by (rule qualifying_step [OF q])
  moreover have "trace st' = trace st @ [StartThread (box_conf b), StampUpdated (clock_now e)] \<and>
           background st' = background st @ show_message (box_conf b) (popup_ok e)"
    and "last_notification_time st' = clock_now e"
    by (simp_all add: st')
  ultimately show ?thesis using later by blast
qed

text \<open>A person at time 100 in the fresh session, the popup failing in the thread.\<close>

theorem dispatch_then_stamp_witness:
  "qualifying session (a_box 0 0.9) \<and>
   notification_cooldown session \<le>
     clock_now \<lparr> clock_stamp = 100, clock_now = 100, popup_ok = False \<rparr> -
       last_notification_time session \<and>
   (\<exists>fr' ds' st'.
      process_box session blank []
        (a_box 0 0.9, \<lparr> clock_stamp = 100, clock_now = 100, popup_ok = False \<rparr>) =
        Inr (fr', ds', st') \<and>
      trace st' = trace session @
        [StartThread 0.9, StampUpdated 100] \<and>
      background st' = [Print ''Error showing notification: {}'' []] \<and>
      last_notification_time st' = 100)"
proof -
  let ?e = "\<lparr> clock_stamp = 100, clock_now = 100, popup_ok = False \<rparr>"
  have q: "qualifying session (a_box 0 0.9)" by (simp add: qualifying_person)
  have c: "notification_cooldown session \<le> clock_now ?e - last_notification_time session"
    by (simp add: session_fields)
  from dispatch_then_stamp [OF q c, of blank "[]"] obtain fr' ds' st' where
    "process_box session blank [] (a_box 0 0.9, ?e) = Inr (fr', ds', st')"
    "trace st' = trace session @ [StartThread (box_conf (a_box 0 0.9)), StampUpdated (clock_now ?e)] \<and>
           background st' = background session @ show_message (box_conf (a_box 0 0.9)) (popup_ok ?e)"
    "last_notification_time st' = clock_now ?e" by blast
  then have "process_box session blank [] (a_box 0 0.9, ?e) = Inr (fr', ds', st') \<and>
      trace st' = trace session @
        [StartThread 0.9, StampUpdated 100] \<and>
      background st' = [Print ''Error showing notification: {}'' []] \<and>
      last_notification_time st' = 100"
    by (simp add: a_box_def show_message_def session_fields)
  with q c show ?thesis by blast
qed

subsection \<open>Session statistics\<close>

text \<open>
  Claim C5. Along the iterations of the loop of \<open>run\<close>, from a detector with
  \<open>target_detections \<le> total_detections\<close> (as after \<open>__init__\<close>, both 0), the two counters
  never decrease from one iteration to any later one, and \<open>target_detections \<le>
  total_detections\<close> holds after every iteration.
\<close>

theorem stats_monotone:
  assumes "target_detections st \<le> total_detections st"
  shows "sorted_wrt (\<lambda>s s'. total_detections s \<le> total_detections s' \<and>
                           target_detections s \<le> target_detections s')
           (st # run_loop pf st ins) \<and>
         (\<forall>s\<in>set (run_loop pf st ins). target_detections s \<le> total_detections s)"
proof -
  have "sorted_wrt (\<lambda>s s'. total_detections s \<le> total_detections s' \<and>
                           target_detections s \<le> target_detections s')
           (st # run_loop pf st ins)" for st
  proof (induction ins arbitrary: st)
    case Nil
    then show ?case by simp
  next
    case (Cons i ins)
    show ?case
    proof (cases "tick pf st i")
      case (Continue st1)
      with Cons.IH [of st1] run_loop_above [of pf st "i # ins"] show ?thesis by simp
    next
      case (Break st1)
      with run_loop_above [of pf st "i # ins"] show ?thesis by simp
    next
      case (Raise err)
      then show ?thesis by simp
    qed
  qed
  with run_loop_above [of pf st ins] assms show ?thesis by blast
qed

text \<open>
  The fresh session: an iteration with a person at 0.6 and a dog at 0.9, then an iteration
  with the key \<open>q\<close>.
\<close>

theorem stats_monotone_witness:
  "target_detections session \<le> total_detections session \<and>
   sorted_wrt (\<lambda>s s'. total_detections s \<le> total_detections s' \<and>
                       target_detections s \<le> target_detections s')
     (session # run_loop (\<lambda>s. None) session
        [a_tick [(a_box 0 0.6, at_time 1), (a_box 16 0.9, at_time 2)] 255, a_tick [] 113]) \<and>
   list_all (\<lambda>s. target_detections s \<le> total_detections s)
     (run_loop (\<lambda>s. None) session
        [a_tick [(a_box 0 0.6, at_time 1), (a_box 16 0.9, at_time 2)] 255, a_tick [] 113]) \<and>
   map (\<lambda>s. (total_detections s, target_detections s))
     (run_loop (\<lambda>s. None) session
        [a_tick [(a_box 0 0.6, at_time 1), (a_box 16 0.9, at_time 2)] 255, a_tick [] 113]) =
     [(2, 1), (2, 1)]"
proof -
  let ?ins = "[a_tick [(a_box 0 0.6, at_time 1), (a_box 16 0.9, at_time 2)] 255, a_tick [] 113]"
  have h: "target_detections session \<le> total_detections session"
    by (simp add: session_fields)
  have v: "map (\<lambda>s. (total_detections s, target_detections s))
             (run_loop (\<lambda>s. None) session ?ins) = [(2, 1), (2, 1)]"
    by (simp add: a_tick_def tick_def process_frame_def process_box_def session_fields coco_def
          a_box_def at_time_def default_config_def lower_person lower_dog is_target_class_def
          notify_person_def show_notification_def show_message_def annotate_def
          save_detections_to_file_def counts_as_target_def after_frame_def
          handle_keyboard_input_def Let_def)
  from stats_monotone [OF h, of "\<lambda>s. None" ?ins] h v show ?thesis
    by (simp add: list_all_iff)
qed

subsection \<open>One classification of target hits\<close>

text \<open>
  Claim C7. For every detection that \<open>process_frame\<close> returns, the membership test of the
  loop of \<open>run\<close> (line 373, on the configuration after the call) gives the same result as
  the test of \<open>process_frame\<close> (line 176) on its label. The labels drawn with the target mark
  are exactly the detections that the statistics count as targets, and every alert
  dispatched belongs to a detection counted as a target.
\<close>

theorem one_classification:
  assumes "process_frame st fr bes = Inr (fr', ds, st')"
  shows "(\<forall>d\<in>set ds. counts_as_target (config st') d =
                      is_target_class (config st) (det_class d)) \<and>
         target_marks (drawn fr') = target_marks (drawn fr) @
           map (\<lambda>d. (det_class d, det_confidence d)) (filter (counts_as_target (config st')) ds) \<and>
         (\<exists>nt. trace st' = trace st @ nt \<and>
            set (alerts nt) \<subseteq> set (map det_confidence
              (filter (\<lambda>d. counts_as_target (config st') d \<and> det_class d = ''person'') ds)))"
proof (cases "model st = None")
  case True
  with assms show ?thesis by (simp add: process_frame_def)
next
  case False
  with assms have r: "process_boxes st fr [] bes = Inr (fr', ds, st')"
    by (simp add: process_frame_def)
  have k: "config st' = config st" using process_boxes_keeps [OF r] by simp
  from process_boxes_agree [OF r] show ?thesis unfolding k by auto
qed

text \<open>A person at 0.6 and a dog at 0.9 in the fresh session: one target, the person.\<close>

theorem one_classification_witness:
  "\<exists>fr' ds st'.
     process_frame session blank [(a_box 0 0.6, at_time 1), (a_box 16 0.9, at_time 2)] =
       Inr (fr', ds, st') \<and>
     map det_class ds = [''person'', ''dog''] \<and>
     list_all (\<lambda>d. counts_as_target (config st') d =
                    is_target_class (config session) (det_class d)) ds \<and>
     map det_class (filter (counts_as_target (config st')) ds) = [''person''] \<and>
     target_marks (drawn fr') = [(''person'', 0.6)]"
proof -
  let ?bes = "[(a_box 0 0.6, at_time 1), (a_box 16 0.9, at_time 2)]"
  have h1: "model session \<noteq> None" by (simp add: session_fields)
  have h2: "\<forall>be\<in>set ?bes. class_names session (box_cls (fst be)) \<noteq> None"
    by (simp add: session_fields coco_def a_box_def)
  from process_frame_detections [OF h1 h2, of blank] obtain fr' ds st' where
    r: "process_frame session blank ?bes = Inr (fr', ds, st')"
    and ds: "ds = [\<lparr> det_class = ''person'', det_confidence = 0.6,
                     det_bbox = (10, 20, 110, 220), det_timestamp = 1 \<rparr>,
                   \<lparr> det_class = ''dog'', det_confidence = 0.9,
                     det_bbox = (10, 20, 110, 220), det_timestamp = 2 \<rparr>]"
    by (auto simp: session_fields coco_def a_box_def at_time_def default_config_def
          lower_person lower_dog)
  have k: "config st' = default_config"
    using process_frame_keeps [OF r] by (simp add: session_fields)
  have f: "filter (counts_as_target (config st')) ds = [hd ds]"
    by (simp add: k ds counts_as_target_def default_config_def lower_person)
  from one_classification [OF r] have
    "\<forall>d\<in>set ds. counts_as_target (config st') d =
                      is_target_class (config session) (det_class d)"
    "target_marks (drawn fr') = target_marks (drawn blank) @
       map (\<lambda>d. (det_class d, det_confidence d)) (filter (counts_as_target (config st')) ds)"
    by blast+
  then have "list_all (\<lambda>d. counts_as_target (config st') d =
                    is_target_class (config session) (det_class d)) ds"
    and "target_marks (drawn fr') = [(''person'', 0.6)]"
    unfolding f by (simp_all add: list_all_iff ds blank_def)
  with r ds f show ?thesis by (intro exI [of _ fr'] exI [of _ ds] exI [of _ st']) simp
qed

subsection \<open>Target classes\<close>

text \<open>
  Claim C4. The test of line 176 holds of a lower-cased label exactly when the label is
  among the lower-cased target classes. For a box above the threshold with class name
  \<open>name\<close>, the frame gets the target mark for \<open>lower name\<close> exactly in that case, and
  otherwise no mark and no alert. With an empty list of target classes, an iteration of
  the loop adds every detection above the threshold to \<open>total_detections\<close> and nothing to
  \<open>target_detections\<close>.
\<close>

theorem target_membership:
  "(is_target_class c n \<longleftrightarrow> n \<in> lower ` set (target_classes c)) \<and>
   (class_names st (box_cls b) = Some name \<and> confidence_threshold (config st) \<le> box_conf b \<longrightarrow>
      (\<exists>fr' ds' st'. process_box st fr ds (b, e) = Inr (fr', ds', st') \<and>
         (target_marks (drawn fr') = target_marks (drawn fr) @ [(lower name, box_conf b)]
            \<longleftrightarrow> lower name \<in> lower ` set (target_classes (config st))) \<and>
         (lower name \<notin> lower ` set (target_classes (config st)) \<longrightarrow>
            target_marks (drawn fr') = target_marks (drawn fr) \<and> st' = st))) \<and>
   (target_classes (config st) = [] \<and> \<not> paused st \<and> read_ret i \<and> model st \<noteq> None \<and>
    (\<forall>be\<in>set (boxes i). class_names st (box_cls (fst be)) \<noteq> None) \<longrightarrow>
      (\<exists>st'. (tick pf st i = Continue st' \<or> tick pf st i = Break st') \<and>
         total_detections st' = total_detections st +
           int (length (filter (\<lambda>(b, e). confidence_threshold (config st) \<le> box_conf b)
                  (boxes i))) \<and>
         target_detections st' = target_detections st))"
proof (intro conjI impI)
  show "is_target_class c n \<longleftrightarrow> n \<in> lower ` set (target_classes c)"
    by (simp add: is_target_class_def)
next
  assume a: "class_names st (box_cls b) = Some name \<and>
             confidence_threshold (config st) \<le> box_conf b"
  let ?t = "is_target_class (config st) (lower name)"
  have run: "process_box st fr ds (b, e) =
      Inr (annotate (config st) (lower name) ?t (box_conf b) (box_xyxy b) fr,
           ds @ [\<lparr> det_class = lower name, det_confidence = box_conf b,
                     det_bbox = box_xyxy b, det_timestamp = clock_stamp e \<rparr>],
           notify_person (lower name) ?t (box_conf b) e st)"
    using a by (simp add: process_box_def Let_def)
  have t: "?t \<longleftrightarrow> lower name \<in> lower ` set (target_classes (config st))"
    by (simp add: is_target_class_def)
  have "\<not> ?t \<Longrightarrow> notify_person (lower name) ?t (box_conf b) e st = st"
    by (simp add: notify_person_skip)
  with run t show "\<exists>fr' ds' st'. process_box st fr ds (b, e) = Inr (fr', ds', st') \<and>
         (target_marks (drawn fr') = target_marks (drawn fr) @ [(lower name, box_conf b)]
            \<longleftrightarrow> lower name \<in> lower ` set (target_classes (config st))) \<and>
         (lower name \<notin> lower ` set (target_classes (config st)) \<longrightarrow>
            target_marks (drawn fr') = target_marks (drawn fr) \<and> st' = st)"
    by (simp add: annotate_marks)
next
  assume a: "target_classes (config st) = [] \<and> \<not> paused st \<and> read_ret i \<and> model st \<noteq> None \<and>
    (\<forall>be\<in>set (boxes i). class_names st (box_cls (fst be)) \<noteq> None)"
  then have "\<And>x. \<not> is_target_class (config st) x" by (simp add: is_target_class_def)
  with a tick_counts [of st i pf]
  show "\<exists>st'. (tick pf st i = Continue st' \<or> tick pf st i = Break st') \<and>
         total_detections st' = total_detections st +
           int (length (filter (\<lambda>(b, e). confidence_threshold (config st) \<le> box_conf b)
                  (boxes i))) \<and>
         target_detections st' = target_detections st"
    by simp
qed

text \<open>
  The label \<open>Dog\<close> with the targets \<open>Cat\<close> and \<open>DOG\<close>, and an iteration with no target
  class at all.
\<close>

theorem target_membership_witness:
  "is_target_class ((config session)\<lparr>target_classes := [''Cat'', ''DOG'']\<rparr>) (lower ''Dog'') \<and>
   (\<exists>fr' ds' st'.
      process_box
        (session\<lparr>class_names := [0 \<mapsto> ''Dog''],
                 config := (config session)\<lparr>target_classes := [''Cat'', ''DOG'']\<rparr>\<rparr>)
        blank [] (a_box 0 0.9, at_time 1) = Inr (fr', ds', st') \<and>
      target_marks (drawn fr') = [(''dog'', 0.9)]) \<and>
   (\<exists>st'. (tick (\<lambda>s. None) (session\<lparr>config := (config session)\<lparr>target_classes := []\<rparr>\<rparr>)
              (a_tick [(a_box 0 0.6, at_time 1), (a_box 16 0.9, at_time 2)] 255) = Continue st' \<or>
           tick (\<lambda>s. None) (session\<lparr>config := (config session)\<lparr>target_classes := []\<rparr>\<rparr>)
              (a_tick [(a_box 0 0.6, at_time 1), (a_box 16 0.9, at_time 2)] 255) = Break st') \<and>
          total_detections st' = 2 \<and> target_detections st' = 0)"
proof -
  let ?c = "(config session)\<lparr>target_classes := [''Cat'', ''DOG'']\<rparr>"
  let ?s = "session\<lparr>class_names := [0 \<mapsto> ''Dog''], config := ?c\<rparr>"
  let ?e = "session\<lparr>config := (config session)\<lparr>target_classes := []\<rparr>\<rparr>"
  let ?i = "a_tick [(a_box 0 0.6, at_time 1), (a_box 16 0.9, at_time 2)] 255"
  have m: "lower ''Dog'' \<in> lower ` set (target_classes ?c)"
    by (simp add: lower_dog lower_cat)
  have h1: "class_names ?s (box_cls (a_box 0 0.9)) = Some ''Dog'' \<and>
            confidence_threshold (config ?s) \<le> box_conf (a_box 0 0.9)"
    by (simp add: a_box_def session_fields default_config_def)
  have h2: "target_classes (config ?e) = [] \<and> \<not> paused ?e \<and> read_ret ?i \<and> model ?e \<noteq> None \<and>
    (\<forall>be\<in>set (boxes ?i). class_names ?e (box_cls (fst be)) \<noteq> None)"
    by (simp add: session_fields a_tick_def a_box_def coco_def)
  note t = target_membership [where c = ?c and n = "lower ''Dog''" and st = ?s and b = "a_box 0 0.9"
      and name = "''Dog''" and fr = blank and ds = "[]" and e = "at_time 1"]
  from t m have one: "is_target_class ?c (lower ''Dog'')" by blast
  from t h1 m have two: "\<exists>fr' ds' st'.
      process_box ?s blank [] (a_box 0 0.9, at_time 1) = Inr (fr', ds', st') \<and>
      target_marks (drawn fr') = [(''dog'', 0.9)]"
    by (simp add: blank_def lower_dog a_box_def)
  from target_membership [where st = ?e and i = ?i and pf = "\<lambda>s. None"] h2
  have three: "\<exists>st'. (tick (\<lambda>s. None) ?e ?i = Continue st' \<or> tick (\<lambda>s. None) ?e ?i = Break st') \<and>
          total_detections st' = 2 \<and> target_detections st' = 0"
    by (simp add: session_fields a_tick_def a_box_def default_config_def)
  from one two three show ?thesis by blast
qed

subsection \<open>Editing the confidence threshold\<close>

text \<open>
  Claim C8. The key \<open>c\<close> with an input that is cancelled (\<open>EOFError\<close>,
  \<open>KeyboardInterrupt\<close>), not a number for \<open>float\<close>, a number outside \<open>[0, 1]\<close>, or blank:
  \<open>handle_keyboard_input\<close> returns \<open>True\<close> (the loop goes on), nothing is raised, and the
  detector is the one before but for the console lines, which are the prompt, one
  diagnostic line and the closing line; the threshold is the one before.
\<close>

theorem invalid_confidence_input:
  assumes "inp = Eof \<or> inp = Interrupt \<or>
           (\<exists>s. inp = Line s \<and>
                (strip s = [] \<or> pyfloat (strip s) = None \<or>
                 (\<exists>x. pyfloat (strip s) = Some x \<and> (x < 0 \<or> 1 < x))))"
  shows "\<exists>diagnostic.
           diagnostic \<in> set [''Keeping current confidence threshold'',
                             ''Invalid input, keeping current confidence threshold'',
                             ''Confidence must be between 0.0 and 1.0'',
                             ''Input cancelled, keeping current confidence threshold''] \<and>
           handle_keyboard_input pyfloat st 99 inp w =
             (True,
              st\<lparr>trace := trace st @
                [Print ''Current confidence threshold: {}'' [F (confidence_threshold (config st))],
                 Print ''Enter new confidence threshold (0.0-1.0) or press Enter to keep current:'' [],
                 Print ''(Type in the console window, not the video window)'' [],
                 Print ''Confidence (0.0-1.0): '' [],
                 Print diagnostic [],
                 Print ''Settings updated! Video continues...'' []]\<rparr>)"
proof -
  have k: "handle_keyboard_input pyfloat st 99 inp w = (True, change_confidence pyfloat inp st)"
    by (simp add: handle_keyboard_input_def)
  from assms consider (eof) "inp = Eof" | (int) "inp = Interrupt"
    | (empty) s where "inp = Line s" "strip s = []"
    | (bad) s where "inp = Line s" "strip s \<noteq> []" "pyfloat (strip s) = None"
    | (out) s x where "inp = Line s" "strip s \<noteq> []" "pyfloat (strip s) = Some x" "x < 0 \<or> 1 < x"
    by blast
  then show ?thesis
  proof cases
    case eof
    then show ?thesis
      unfolding k
      by (intro exI [of _ "''Input cancelled, keeping current confidence threshold''"])
         (simp add: change_confidence_def emit_def)
  next
    case int
    then show ?thesis
      unfolding k
      by (intro exI [of _ "''Input cancelled, keeping current confidence threshold''"])
         (simp add: change_confidence_def emit_def)
  next
    case empty
    then show ?thesis
      unfolding k
      by (intro exI [of _ "''Keeping current confidence threshold''"])
         (simp add: change_confidence_def emit_def Let_def)
  next
    case bad
    then show ?thesis
      unfolding k
      by (intro exI [of _ "''Invalid input, keeping current confidence threshold''"])
         (simp add: change_confidence_def emit_def Let_def)
  next
    case out
    then have "(if 0 \<le> x \<and> x \<le> 1 then a else b) = b" for a b :: detector
      by auto
    with out show ?thesis
      unfolding k
      by (intro exI [of _ "''Confidence must be between 0.0 and 1.0''"])
         (simp add: change_confidence_def emit_def Let_def)
  qed
qed

text \<open>The input \<open>1.5\<close> in the fresh session: the threshold stays 0.5.\<close>

theorem invalid_confidence_input_witness:
  "strip ''1.5'' \<noteq> [] \<and> one_and_a_half (strip ''1.5'') = Some 1.5 \<and> (1::real) < 1.5 \<and>
   fst (handle_keyboard_input one_and_a_half session 99 (Line ''1.5'') True) = True \<and>
   config (snd (handle_keyboard_input one_and_a_half session 99 (Line ''1.5'') True)) =
     config session \<and>
   trace (snd (handle_keyboard_input one_and_a_half session 99 (Line ''1.5'') True)) =
     trace session @
       [Print ''Current confidence threshold: {}'' [F 0.5],
        Print ''Enter new confidence threshold (0.0-1.0) or press Enter to keep current:'' [],
        Print ''(Type in the console window, not the video window)'' [],
        Print ''Confidence (0.0-1.0): '' [],
        Print ''Confidence must be between 0.0 and 1.0'' [],
        Print ''Settings updated! Video continues...'' []]"
proof -
  have s: "strip ''1.5'' = ''1.5''" by (simp add: strip_def isspace_def)
  have h: "Line ''1.5'' = Eof \<or> Line ''1.5'' = Interrupt \<or>
           (\<exists>s. Line ''1.5'' = Line s \<and>
                (strip s = [] \<or> one_and_a_half (strip s) = None \<or>
                 (\<exists>x. one_and_a_half (strip s) = Some x \<and> (x < 0 \<or> 1 < x))))"
  proof -
    have "strip ''1.5'' \<noteq> [] \<and> one_and_a_half (strip ''1.5'') = Some (3 / 2) \<and>
          ((3 / 2 :: real) < 0 \<or> 1 < (3 / 2 :: real))"
      by (simp add: s one_and_a_half_def)
    then show ?thesis by blast
  qed
  have v: "handle_keyboard_input one_and_a_half session 99 (Line ''1.5'') True =
     (True, session\<lparr>trace := trace session @
       [Print ''Current confidence threshold: {}'' [F 0.5],
        Print ''Enter new confidence threshold (0.0-1.0) or press Enter to keep current:'' [],
        Print ''(Type in the console window, not the video window)'' [],
        Print ''Confidence (0.0-1.0): '' [],
        Print ''Confidence must be between 0.0 and 1.0'' [],
        Print ''Settings updated! Video continues...'' []]\<rparr>)"
    by (simp add: handle_keyboard_input_def change_confidence_def s one_and_a_half_def emit_def
          session_fields default_config_def)
  from invalid_confidence_input [OF h, of session True] v show ?thesis
    by (simp add: s one_and_a_half_def)
qed

subsection \<open>Editing the target classes\<close>

text \<open>
  Claim C9 says that every non-empty input replaces the target classes. The source
  strips the input before it tests it (lines 296 and 297): the input of one space is not
  empty, and the targets stay \<open>person\<close>, not the stripped entries of the input.
\<close>

theorem blank_targets_counterexample:
  "'' '' \<noteq> [] \<and>
   target_classes (config (change_target (Line '' '') session)) = [''person''] \<and>
   map (\<lambda>t. lower (strip t)) (split CHR '','' '' '') = ['''']"
  by (simp add: change_target_def strip_def isspace_def session_fields default_config_def
        lower_def)

text \<open>
  Claim C9, amended. An input that is not empty after \<open>strip\<close> replaces the target classes
  with the entries of the stripped input between commas, each stripped and lower-cased;
  the list has at least one entry. An input that is empty after \<open>strip\<close> leaves the target
  classes unchanged.
\<close>

theorem change_target_edit:
  "(strip s \<noteq> [] \<longrightarrow>
      target_classes (config (change_target (Line s) st)) =
        map (\<lambda>t. lower (strip t)) (split CHR '','' (strip s)) \<and>
      target_classes (config (change_target (Line s) st)) \<noteq> []) \<and>
   (strip s = [] \<longrightarrow>
      target_classes (config (change_target (Line s) st)) = target_classes (config st))"
  by (simp add: change_target_def Let_def split_not_Nil)

text \<open>The input \<open>Cat, DOG\<close> gives \<open>cat\<close> and \<open>dog\<close>; the empty input keeps \<open>person\<close>.\<close>

theorem change_target_edit_witness:
  "strip ''Cat, DOG'' \<noteq> [] \<and>
   target_classes (config (change_target (Line ''Cat, DOG'') session)) = [''cat'', ''dog''] \<and>
   strip [] = [] \<and>
   target_classes (config (change_target (Line []) session)) = [''person'']"
proof -
  have s: "strip ''Cat, DOG'' = ''Cat, DOG''" "strip [] = []"
    "strip ''Cat'' = ''Cat''" "strip '' DOG'' = ''DOG''"
    by (simp_all add: strip_def isspace_def)
  from change_target_edit [of "''Cat, DOG''" session] change_target_edit [of "[]" session]
  show ?thesis
    by (simp add: s lower_cat lower_dog session_fields default_config_def)
qed

subsection \<open>Range of the confidence threshold\<close>

text \<open>
  Claim C6 says that the threshold is in \<open>[0, 1]\<close> after loading, after the command line
  and after every edit. \<open>change_confidence\<close> checks the range (line 274) and the defaults
  are in range, but \<open>main\<close> (line 422) and \<open>load_config\<close> (line 42) take any number:
  \<open>--confidence 1.5\<close> gives the threshold 1.5, and a file with the threshold 7 gives 7.
\<close>

theorem threshold_unchecked:
  "confidence_threshold (config (main
      \<lparr> arg_config = ''detector_config.json'', arg_model = None, arg_source = None,
        arg_confidence = Some 1.5, arg_targets = None \<rparr> NoFile True)) = 1.5 \<and>
   confidence_threshold (fst (load_config
      (Json \<lparr> j_model_path = None, j_confidence_threshold = Some 7, j_target_classes = None,
              j_video_source = None, j_ndi_sources = None, j_display_size = None,
              j_show_all_detections = None, j_save_detections = None,
              j_output_file = None \<rparr>) True)) = 7"
  by (simp add: main_def init_def load_config_def save_config_def)

end
